theory Spec2Isabelle
  imports Complex_Main "HOL-Library.Word" "HOL-Library.Log_Nat"
begin

section \<open>JavaScript numbers\<close>

text \<open>
  The front end is TypeScript: every \<^verbatim>\<open>number\<close> is an IEEE-754 double. The finite
  doubles are rationals, so a finite number is modelled as a \<^typ>\<open>rat\<close> and every
  arithmetic result is rounded by \<open>fl\<close> (round to nearest, ties to even, 53 significant
  bits, gradual underflow below \<open>2 powi (-1022)\<close>). Overflow to infinity is not
  modelled: the values computed below are luminances, pixel ratios and percentages.
  Integer-valued quantities that the code only counts, adds or compares (array
  lengths, pixel counters, millisecond clock readings) are exact in a double and are
  modelled as \<^typ>\<open>nat\<close> or \<^typ>\<open>int\<close>.

  \<open>expo x\<close> is the binary exponent of a non-zero \<open>x\<close>, the \<open>e\<close> with
  \<open>2 powi e \<le> \<bar>x\<bar> < 2 powi (e + 1)\<close>, found from the bit lengths of numerator and
  denominator; \<open>round_even\<close> rounds to the nearest integer, a tie to the even one;
  \<open>fl x\<close> rounds \<open>x\<close> to the nearest multiple of \<open>2 powi (e - 52)\<close>.
\<close>

definition expo :: "rat \<Rightarrow> int" where
  "expo x = (let (p, q) = quotient_of \<bar>x\<bar>; k = bitlen p - bitlen q
             in if 2 powi k \<le> \<bar>x\<bar> then k else k - 1)"

definition round_even :: "rat \<Rightarrow> int" where
  "round_even y = (let f = \<lfloor>y\<rfloor>; r = y - of_int f
                   in if r < 1 / 2 then f else if 1 / 2 < r then f + 1
                      else if even f then f else f + 1)"

definition fl :: "rat \<Rightarrow> rat" where
  "fl x = (if x = 0 then 0
           else let e = max (expo x) (- 1022)
                in of_int (round_even (x / 2 powi (e - 52))) * 2 powi (e - 52))"

text \<open>A number is a finite double or \<open>NaN\<close> (which arises from \<open>0 / 0\<close> and from
  arithmetic on \<^verbatim>\<open>undefined\<close>, the value of an out-of-range typed-array read).\<close>

datatype number = NaN | Num rat

fun js_sub :: "number \<Rightarrow> number \<Rightarrow> number" where
  "js_sub (Num a) (Num b) = Num (fl (a - b))"
| "js_sub _ _ = NaN"

fun js_add :: "number \<Rightarrow> number \<Rightarrow> number" where
  "js_add (Num a) (Num b) = Num (fl (a + b))"
| "js_add _ _ = NaN"

fun js_abs :: "number \<Rightarrow> number" where
  "js_abs (Num a) = Num \<bar>a\<bar>"
| "js_abs NaN = NaN"

text \<open>\<^verbatim>\<open>a > b\<close>: every comparison with \<open>NaN\<close> is false.\<close>

fun js_gt :: "number \<Rightarrow> number \<Rightarrow> bool" where
  "js_gt (Num a) (Num b) = (b < a)"
| "js_gt _ _ = False"

section \<open>The frame buffer (\<^verbatim>\<open>frontend/src/utils/frameBuffer.ts\<close>)\<close>

subsection \<open>Data\<close>

type_synonym byte = "8 word"

text \<open>\<^verbatim>\<open>ImageData\<close>: \<open>data\<close> is the \<^verbatim>\<open>Uint8ClampedArray\<close> of RGBA bytes.\<close>

record ImageData =
  width :: nat
  height :: nat
  data :: "byte list"

record FrameData =
  base64 :: string
  imageData :: ImageData
  timestamp :: int

record FrameBuffer =
  buffer :: "FrameData list"
  maxFrames :: nat
  frameInterval :: int
  motionThreshold :: number
  lastCaptureTime :: int
  hasSignificantMotion :: bool

text \<open>The constructor, and the constructor with its default arguments.\<close>

definition new_FrameBuffer :: "nat \<Rightarrow> int \<Rightarrow> number \<Rightarrow> FrameBuffer" where
  "new_FrameBuffer m iv thr =
     \<lparr>buffer = [], maxFrames = m, frameInterval = iv, motionThreshold = thr,
      lastCaptureTime = 0, hasSignificantMotion = False\<rparr>"

text \<open>The literal \<^verbatim>\<open>0.15\<close> denotes the double nearest to \<open>15 / 100\<close>.\<close>

definition defaultMotionThreshold :: number where
  "defaultMotionThreshold = Num (fl (15 / 100))"

definition default_FrameBuffer :: FrameBuffer where
  "default_FrameBuffer = new_FrameBuffer 8 200 defaultMotionThreshold"

subsection \<open>\<^verbatim>\<open>calculateMotion\<close>\<close>

text \<open>The grayscale value read at byte offset \<open>i\<close>:
  \<^verbatim>\<open>(data[i] + data[i + 1] + data[i + 2]) / 3\<close>. The sum of three bytes is exact; a read
  past the end of the array yields \<^verbatim>\<open>undefined\<close> and the sum is \<open>NaN\<close>.\<close>

definition gray :: "byte list \<Rightarrow> nat \<Rightarrow> number" where
  "gray d i =
     (if i + 2 < length d
      then Num (fl (of_nat (unat (d ! i) + unat (d ! (i + 1)) + unat (d ! (i + 2))) / 3))
      else NaN)"

text \<open>The loop \<^verbatim>\<open>for (let i = 0; i < frame1.data.length; i += 4)\<close>, with the pixel
  threshold 30 of the source.\<close>

function countChanged :: "byte list \<Rightarrow> byte list \<Rightarrow> nat \<Rightarrow> nat \<Rightarrow> nat" where
  "countChanged d1 d2 i changedPixels =
     (if i < length d1
      then countChanged d1 d2 (i + 4)
             (if js_gt (js_abs (js_sub (gray d1 i) (gray d2 i))) (Num 30)
              then changedPixels + 1 else changedPixels)
      else changedPixels)"
  by pat_completeness auto
termination
  by (relation "measure (\<lambda>(d1, d2, i, c). length d1 - i)") auto

declare countChanged.simps [simp del]

text \<open>\<^verbatim>\<open>pixels = frame1.data.length / 4\<close> is exact (a division by a power of two);
  \<^verbatim>\<open>changedPixels / pixels\<close> is \<open>0 / 0 = NaN\<close> when the array is empty, since then the
  loop body never ran.\<close>

definition calculateMotion :: "ImageData \<Rightarrow> ImageData \<Rightarrow> number" where
  "calculateMotion frame1 frame2 =
     (if width frame1 \<noteq> width frame2 \<or> height frame1 \<noteq> height frame2 then Num 1
      else let changedPixels = countChanged (data frame1) (data frame2) 0 0
           in if data frame1 = [] then NaN
              else Num (fl (of_nat changedPixels / (of_nat (length (data frame1)) / 4))))"

subsection \<open>The motion score as the specification words it\<close>


definition luminance :: "ImageData \<Rightarrow> nat \<Rightarrow> rat" where
  "luminance f k =
     of_nat (unat (data f ! (4 * k)) + unat (data f ! (4 * k + 1)) + unat (data f ! (4 * k + 2))) / 3"

definition pixelChanged :: "ImageData \<Rightarrow> ImageData \<Rightarrow> nat \<Rightarrow> bool" where
  "pixelChanged f1 f2 k = (30 < \<bar>luminance f1 k - luminance f2 k\<bar>)"



subsection \<open>The motion score in double arithmetic\<close>

text \<open>
  The same score with the luminance and the luminance difference computed as
  JavaScript computes them: the average is rounded to a double, and so is the
  difference of the two rounded averages, before it is compared with 30.
\<close>

definition luminanceDouble :: "ImageData \<Rightarrow> nat \<Rightarrow> rat" where
  "luminanceDouble f k = fl (luminance f k)"

definition pixelChangedDouble :: "ImageData \<Rightarrow> ImageData \<Rightarrow> nat \<Rightarrow> bool" where
  "pixelChangedDouble f1 f2 k = (30 < \<bar>fl (luminanceDouble f1 k - luminanceDouble f2 k)\<bar>)"




subsection \<open>\<^verbatim>\<open>addFrame\<close>\<close>

text \<open>
  \<open>addFrame now ctx s\<close>: \<open>now\<close> is the reading of \<^verbatim>\<open>Date.now()\<close>; \<open>ctx\<close> is what the
  canvas delivers: \<open>None\<close> when \<^verbatim>\<open>getContext('2d')\<close> is null (the method throws),
  otherwise the JPEG base64 text and the pixel grid of the drawn video frame.
  The result is the thrown message or the returned boolean, with the updated buffer
  (the throttle timestamp is written before the context is requested).
\<close>

definition addFrame ::
  "int \<Rightarrow> (string \<times> ImageData) option \<Rightarrow> FrameBuffer \<Rightarrow> (string + bool) \<times> FrameBuffer" where
  "addFrame now ctx s =
     (if now - lastCaptureTime s < frameInterval s then (Inr False, s)
      else
        let s1 = s\<lparr>lastCaptureTime := now\<rparr> in
        case ctx of
          None \<Rightarrow> (Inl ''Could not get canvas context'', s1)
        | Some (b64, img) \<Rightarrow>
            let s2 = (if length (buffer s1) > 0
                         \<and> js_gt (calculateMotion (imageData (last (buffer s1))) img)
                                 (motionThreshold s1)
                      then s1\<lparr>hasSignificantMotion := True\<rparr> else s1);
                s3 = s2\<lparr>buffer := buffer s2 @
                        [\<lparr>base64 = b64, imageData = img, timestamp = now\<rparr>]\<rparr>;
                s4 = (if length (buffer s3) > maxFrames s3
                      then s3\<lparr>buffer := tl (buffer s3)\<rparr> else s3)
            in (Inr (length (buffer s4) \<ge> maxFrames s4 \<and> hasSignificantMotion s4), s4))"

subsection \<open>\<^verbatim>\<open>getFrames\<close>, \<^verbatim>\<open>getMotionLevel\<close>, \<^verbatim>\<open>clear\<close>, \<^verbatim>\<open>isReady\<close>,
  \<^verbatim>\<open>resetMotionFlag\<close>\<close>

text \<open>The padding loop \<^verbatim>\<open>while (this.buffer.length < this.maxFrames) this.buffer.push(lastFrame)\<close>.
  It pushes a reference to the same record; frame records are never mutated after
  creation, so a copy of the value is the same thing.\<close>

function padLoop :: "'a \<Rightarrow> nat \<Rightarrow> 'a list \<Rightarrow> 'a list" where
  "padLoop lastFrame m buf =
     (if length buf < m then padLoop lastFrame m (buf @ [lastFrame]) else buf)"
  by pat_completeness auto
termination
  by (relation "measure (\<lambda>(lastFrame, m, buf). m - length buf)") auto

declare padLoop.simps [simp del]

definition getFrames :: "FrameBuffer \<Rightarrow> string list \<times> FrameBuffer" where
  "getFrames s =
     (let s' = (if length (buffer s) < maxFrames s \<and> length (buffer s) > 0
                then s\<lparr>buffer := padLoop (last (buffer s)) (maxFrames s) (buffer s)\<rparr>
                else s)
      in (map base64 (buffer s'), s'))"

fun motionSum :: "FrameData list \<Rightarrow> number \<Rightarrow> number" where
  "motionSum (a # b # rest) totalMotion =
     motionSum (b # rest) (js_add totalMotion (calculateMotion (imageData a) (imageData b)))"
| "motionSum _ totalMotion = totalMotion"

text \<open>\<open>comparisons\<close> is \<open>length - 1\<close>, positive once two frames are stored.\<close>

definition getMotionLevel :: "FrameBuffer \<Rightarrow> number" where
  "getMotionLevel s =
     (if length (buffer s) < 2 then Num 0
      else case motionSum (buffer s) (Num 0) of
             NaN \<Rightarrow> NaN
           | Num t \<Rightarrow> Num (fl (t / of_nat (length (buffer s) - 1))))"

definition clear :: "FrameBuffer \<Rightarrow> FrameBuffer" where
  "clear s = s\<lparr>buffer := [], lastCaptureTime := 0, hasSignificantMotion := False\<rparr>"

definition isReady :: "FrameBuffer \<Rightarrow> bool" where
  "isReady s = (length (buffer s) \<ge> maxFrames s \<and> hasSignificantMotion s)"

definition resetMotionFlag :: "FrameBuffer \<Rightarrow> FrameBuffer" where
  "resetMotionFlag s = s\<lparr>hasSignificantMotion := False\<rparr>"

subsection \<open>Sequences of calls\<close>

text \<open>The public operations of the class, and a run of them on a buffer.\<close>

datatype buffer_op =
    AddFrame int "(string \<times> ImageData) option"
  | GetFrames
  | GetMotionLevel
  | Clear
  | IsReady
  | ResetMotionFlag

fun exec :: "buffer_op \<Rightarrow> FrameBuffer \<Rightarrow> FrameBuffer" where
  "exec (AddFrame now ctx) s = snd (addFrame now ctx s)"
| "exec GetFrames s = snd (getFrames s)"
| "exec GetMotionLevel s = s"
| "exec Clear s = clear s"
| "exec IsReady s = s"
| "exec ResetMotionFlag s = resetMotionFlag s"

definition run :: "buffer_op list \<Rightarrow> FrameBuffer \<Rightarrow> FrameBuffer" where
  "run ops s = fold exec ops s"

text \<open>A capture is a clock reading with the encoded frame and its pixel grid.
  \<open>addFrames\<close> pushes captures one after the other and collects what each
  \<^verbatim>\<open>addFrame\<close> call gave back.\<close>

type_synonym capture = "int \<times> string \<times> ImageData"

definition frameOf :: "capture \<Rightarrow> FrameData" where
  "frameOf c = (case c of (now, b64, img) \<Rightarrow> \<lparr>base64 = b64, imageData = img, timestamp = now\<rparr>)"

fun addFrames :: "capture list \<Rightarrow> FrameBuffer \<Rightarrow> (string + bool) list \<times> FrameBuffer" where
  "addFrames [] s = ([], s)"
| "addFrames ((now, b64, img) # cs) s =
     (let (r, s') = addFrame now (Some (b64, img)) s;
          (rs, s'') = addFrames cs s'
      in (r # rs, s''))"

text \<open>Every push of the sequence passes the throttle: each clock reading is at least
  the interval after the previous accepted one (\<open>prev\<close> at the start).\<close>

fun spaced :: "int \<Rightarrow> int \<Rightarrow> capture list \<Rightarrow> bool" where
  "spaced iv prev [] = True"
| "spaced iv prev ((now, b64, img) # cs) = (\<not> now - prev < iv \<and> spaced iv now cs)"

text \<open>Adjacent frames of a sequence never differ by more than the threshold.\<close>

fun still :: "number \<Rightarrow> ImageData list \<Rightarrow> bool" where
  "still thr (a # b # rest) = (\<not> js_gt (calculateMotion a b) thr \<and> still thr (b # rest))"
| "still thr _ = True"

section \<open>The remote classifier call (\<^verbatim>\<open>predictLive\<close>, \<^verbatim>\<open>src/unnamed/part_005\<close>)\<close>

text \<open>
  \<^verbatim>\<open>predictLive\<close> runs synchronously up to its first \<^verbatim>\<open>await\<close>: it copies the frames,
  pads a non-empty batch of fewer than 8 with its last frame, throws on an empty batch
  (the promise is rejected and nothing is sent) and otherwise issues the request.
\<close>

definition framesToSend :: "string list \<Rightarrow> string list" where
  "framesToSend frames =
     (if length frames < 8 \<and> length frames > 0 then padLoop (last frames) 8 frames else frames)"

definition predictLive :: "string list \<Rightarrow> string + string list" where
  "predictLive frames =
     (if length (framesToSend frames) = 0 then Inl ''No frames provided for prediction''
      else Inr (framesToSend frames))"

section \<open>The inference coordinator (\<^verbatim>\<open>handleFrameCapture\<close>, \<^verbatim>\<open>src/unnamed/part_002\<close>)\<close>

datatype action = High | NotHigh

record PredictionResponse =
  prediction :: action
  confidence :: rat
  message :: string

record ConfidenceDataPoint =
  point_time :: nat
  point_confidence :: rat
  point_timestamp :: int

text \<open>
  The component's state: the React state cells, the refs, and three logs of what the
  handler does to its collaborators: the requests sent by \<^verbatim>\<open>predictLive\<close>, the calls of
  \<^verbatim>\<open>speakActionFeedback\<close>, and the values assigned to \<^verbatim>\<open>processingRef.current\<close>.
\<close>

record Page =
  isCameraActive :: bool
  predictionState :: "PredictionResponse option"
  isProcessing :: bool
  error :: "string option"
  audioTranscript :: string
  confidenceHistory :: "ConfidenceDataPoint list"
  videoDimensions :: "nat \<times> nat"
  processingRef :: bool
  lastProcessTimeRef :: int
  lastActionRef :: "action option"
  frameBufferRef :: FrameBuffer
  timeCounterRef :: nat
  predictLiveCalls :: "string list list"
  speakCalls :: "(action \<times> rat \<times> string) list"
  processingWrites :: "bool list"

definition FRAME_INTERVAL_MS :: int where
  "FRAME_INTERVAL_MS = 200"

definition MAX_HISTORY_POINTS :: nat where
  "MAX_HISTORY_POINTS = 50"

text \<open>The component as first rendered: \<^verbatim>\<open>useRef(new FrameBuffer(8, 200))\<close>.\<close>

definition initialPage :: Page where
  "initialPage =
     \<lparr>isCameraActive = False, predictionState = None, isProcessing = False, error = None,
      audioTranscript = [], confidenceHistory = [], videoDimensions = (640, 480),
      processingRef = False, lastProcessTimeRef = 0, lastActionRef = None,
      frameBufferRef = default_FrameBuffer, timeCounterRef = 0,
      predictLiveCalls = [], speakCalls = [], processingWrites = []\<rparr>"

text \<open>
  \<^verbatim>\<open>handleFrameCapture\<close> is an \<^verbatim>\<open>async\<close> function on a single-threaded event loop. It
  runs without interruption from its entry to \<^verbatim>\<open>await predictLive(frames)\<close>, and again
  from the settlement of that promise to its end. The two parts are the two functions
  below. The first part ends in one of four ways: it returns early, \<^verbatim>\<open>addFrame\<close> throws,
  it waits for the reply to a request it has sent, or it waits on a promise that
  \<^verbatim>\<open>predictLive\<close> has rejected without sending anything.
\<close>

datatype outcome =
    Returned
  | Threw string
  | AwaitingReply
  | AwaitingRejection string

text \<open>The call acquired the guard and is suspended at the \<^verbatim>\<open>await\<close>.\<close>

fun awaiting :: "outcome \<Rightarrow> bool" where
  "awaiting AwaitingReply = True"
| "awaiting (AwaitingRejection e) = True"
| "awaiting Returned = False"
| "awaiting (Threw e) = False"

text \<open>
  What one call receives: the video's dimensions, the clock as read by the handler,
  the clock as read inside \<^verbatim>\<open>addFrame\<close>, and what the canvas delivers.
\<close>

record tick =
  videoWidth :: nat
  videoHeight :: nat
  now_handler :: int
  now_buffer :: int
  canvas :: "(string \<times> ImageData) option"

definition handleFrameCapture :: "tick \<Rightarrow> Page \<Rightarrow> outcome \<times> Page" where
  "handleFrameCapture t p =
     (if processingRef p \<or> \<not> isCameraActive p then (Returned, p)
      else
        let p1 = (if videoWidth t > 0 \<and> videoHeight t > 0
                  then p\<lparr>videoDimensions := (videoWidth t, videoHeight t)\<rparr> else p) in
        if now_handler t - lastProcessTimeRef p1 < FRAME_INTERVAL_MS then (Returned, p1)
        else
          case addFrame (now_buffer t) (canvas t) (frameBufferRef p1) of
            (Inl e, fb) \<Rightarrow> (Threw e, p1\<lparr>frameBufferRef := fb\<rparr>)
          | (Inr bufferReady, fb) \<Rightarrow>
              let p2 = p1\<lparr>frameBufferRef := fb\<rparr> in
              if \<not> bufferReady then (Returned, p2)
              else
                let p3 = p2\<lparr>processingRef := True, isProcessing := True,
                            lastProcessTimeRef := now_handler t,
                            processingWrites := processingWrites p2 @ [True]\<rparr>;
                    (frames, fb') = getFrames (frameBufferRef p3);
                    p4 = p3\<lparr>frameBufferRef := fb'\<rparr>
                in (case predictLive frames of
                      Inl e \<Rightarrow> (AwaitingRejection e, p4)
                    | Inr sent \<Rightarrow>
                        (AwaitingReply,
                         p4\<lparr>predictLiveCalls := predictLiveCalls p4 @ [sent]\<rparr>)))"

text \<open>
  How the awaited promise settles: fulfilled with the classifier's reply, or rejected.
  A rejection carries the message of the \<^verbatim>\<open>Error\<close>, or \<open>None\<close> when the thrown value is
  not an \<^verbatim>\<open>Error\<close>.
\<close>

datatype settlement = Fulfilled PredictionResponse | Rejected "string option"

text \<open>The rest of the \<^verbatim>\<open>try\<close> block, the \<^verbatim>\<open>catch\<close> and the \<^verbatim>\<open>finally\<close>; \<open>now\<close> is the
  clock read for the history point.\<close>

definition try_block :: "PredictionResponse \<Rightarrow> int \<Rightarrow> Page \<Rightarrow> Page" where
  "try_block result now p =
     (let p1 = p\<lparr>predictionState :=
                   Some \<lparr>prediction = prediction result, confidence = confidence result,
                         message = message result\<rparr>\<rparr>;
          p2 = p1\<lparr>timeCounterRef := timeCounterRef p1 + 1\<rparr>;
          updated = confidenceHistory p2 @
                    [\<lparr>point_time = timeCounterRef p2,
                      point_confidence = fl (confidence result * 100),
                      point_timestamp = now\<rparr>];
          p3 = p2\<lparr>confidenceHistory := drop (length updated - MAX_HISTORY_POINTS) updated\<rparr>;
          p4 = p3\<lparr>frameBufferRef := resetMotionFlag (frameBufferRef p3)\<rparr>
      in if lastActionRef p4 \<noteq> Some (prediction result)
         then p4\<lparr>lastActionRef := Some (prediction result),
                 audioTranscript := message result,
                 speakCalls := speakCalls p4 @
                   [(prediction result, confidence result, message result)]\<rparr>
         else p4)"

definition catch_block :: "string option \<Rightarrow> Page \<Rightarrow> Page" where
  "catch_block err p =
     (let p1 = p\<lparr>error := Some (case err of Some m \<Rightarrow> m | None \<Rightarrow> ''Prediction failed'')\<rparr>
      in p1\<lparr>frameBufferRef := resetMotionFlag (frameBufferRef p1)\<rparr>)"

definition finally_block :: "Page \<Rightarrow> Page" where
  "finally_block p =
     p\<lparr>processingRef := False, isProcessing := False,
       processingWrites := processingWrites p @ [False]\<rparr>"

definition handleFrameCapture_resume :: "settlement \<Rightarrow> int \<Rightarrow> Page \<Rightarrow> Page" where
  "handleFrameCapture_resume st now p =
     finally_block (case st of
                      Fulfilled result \<Rightarrow> try_block result now p
                    | Rejected err \<Rightarrow> catch_block err p)"

text \<open>A run of calls, each made and left at its \<^verbatim>\<open>await\<close> or its return.\<close>

definition deliver :: "tick list \<Rightarrow> Page \<Rightarrow> Page" where
  "deliver ts p = fold (\<lambda>t q. snd (handleFrameCapture t q)) ts p"

section \<open>Audio feedback (\<^verbatim>\<open>src/unnamed/part_004\<close>)\<close>

text \<open>
  The module's two variables, \<open>currentAudio\<close> (a handle of an audio element) and
  \<open>isPlaying\<close>, together with the part of the browser they act on: the audio elements
  that are sounding (started with \<^verbatim>\<open>play()\<close> and neither paused nor ended), and the
  utterance queue of \<^verbatim>\<open>speechSynthesis\<close>, whose head is the utterance being spoken
  (\<^verbatim>\<open>speak()\<close> appends to the queue, \<^verbatim>\<open>cancel()\<close> empties it).
\<close>

record AudioModule =
  currentAudio :: "nat option"
  isPlaying :: bool
  sounding :: "nat list"
  utteranceQueue :: "string list"
  audioCreated :: nat

definition initialAudio :: AudioModule where
  "initialAudio =
     \<lparr>currentAudio = None, isPlaying = False, sounding = [], utteranceQueue = [],
      audioCreated = 0\<rparr>"

text \<open>An audio session is a sounding audio element or the speech synthesiser at work.\<close>

definition activeSessions :: "AudioModule \<Rightarrow> nat" where
  "activeSessions a = length (sounding a) + (if utteranceQueue a = [] then 0 else 1)"

definition getActionFeedback :: "action \<Rightarrow> string option \<Rightarrow> string" where
  "getActionFeedback act msg =
     (case msg of
        Some m \<Rightarrow> (if m \<noteq> [] then m
                   else if act = High then ''Great shot!'' else ''Keep practicing!'')
      | None \<Rightarrow> (if act = High then ''Great shot!'' else ''Keep practicing!''))"

text \<open>
  The executor of the promise in \<^verbatim>\<open>playAudioFromBase64\<close>, up to \<^verbatim>\<open>audio.play()\<close>.
  \<open>decodes\<close> says whether \<^verbatim>\<open>atob\<close> accepts the text; if not, the promise is rejected
  (\<open>Inl\<close>) after the current playback has been stopped. \<open>plays\<close> says whether the
  browser starts the element; if not, \<^verbatim>\<open>play()\<close> rejects and so does the promise,
  with the module's two variables already set.
\<close>

definition playAudioFromBase64 ::
  "bool \<Rightarrow> bool \<Rightarrow> AudioModule \<Rightarrow> (unit + unit) \<times> AudioModule" where
  "playAudioFromBase64 decodes plays a =
     (let a1 = (case currentAudio a of
                  Some h \<Rightarrow> (if isPlaying a
                             then a\<lparr>sounding := removeAll h (sounding a), currentAudio := None\<rparr>
                             else a)
                | None \<Rightarrow> a)
      in if \<not> decodes then (Inl (), a1)
         else let h = audioCreated a1;
                  a2 = a1\<lparr>audioCreated := h + 1, currentAudio := Some h, isPlaying := True\<rparr>
              in if plays then (Inr (), a2\<lparr>sounding := sounding a2 @ [h]\<rparr>)
                 else (Inl (), a2))"

text \<open>\<open>supported\<close> is \<^verbatim>\<open>'speechSynthesis' in window\<close>.\<close>

definition fallbackTTS :: "bool \<Rightarrow> string \<Rightarrow> AudioModule \<Rightarrow> (unit + unit) \<times> AudioModule" where
  "fallbackTTS supported text a =
     (if supported then (Inr (), a\<lparr>utteranceQueue := utteranceQueue a @ [text]\<rparr>)
      else (Inl (), a))"

text \<open>
  \<^verbatim>\<open>speakActionFeedback\<close> from the settlement of \<^verbatim>\<open>generateAudio\<close> to the start of the
  playback. \<open>reply\<close> is \<open>None\<close> when the request failed, and otherwise says whether
  the audio received decodes and whether the browser plays it.
\<close>

definition speakActionFeedback ::
  "action \<Rightarrow> string option \<Rightarrow> (bool \<times> bool) option \<Rightarrow> bool \<Rightarrow> AudioModule \<Rightarrow> AudioModule" where
  "speakActionFeedback act msg reply supported a =
     (case reply of
        Some (decodes, plays) \<Rightarrow>
          (case playAudioFromBase64 decodes plays a of
             (Inr u, a1) \<Rightarrow> a1
           | (Inl u, a1) \<Rightarrow> snd (fallbackTTS supported (getActionFeedback act msg) a1))
      | None \<Rightarrow> snd (fallbackTTS supported (getActionFeedback act msg) a))"

definition stopAudio :: "bool \<Rightarrow> AudioModule \<Rightarrow> AudioModule" where
  "stopAudio supported a =
     (let a1 = (case currentAudio a of
                  Some h \<Rightarrow> (if isPlaying a
                             then a\<lparr>sounding := removeAll h (sounding a), currentAudio := None,
                                    isPlaying := False\<rparr>
                             else a)
                | None \<Rightarrow> a)
      in if supported then a1\<lparr>utteranceQueue := []\<rparr> else a1)"

section \<open>Pose detector initialisation (\<^verbatim>\<open>frontend/src/services/poseDetection.ts\<close>)\<close>

datatype modelVariant = MoveNetLightning | MoveNetThunder | BlazePoseLite

text \<open>The module's variables; a detector is known by the variant it was built from, and
  \<open>initializationPromise\<close> records whether the variable holds a promise.\<close>

record PoseModule =
  detector :: "modelVariant option"
  isInitialized :: bool
  initializationPromise :: bool

definition initialPose :: PoseModule where
  "initialPose = \<lparr>detector = None, isInitialized = False, initializationPromise = False\<rparr>"

text \<open>The collaborator: whether \<^verbatim>\<open>tf.ready()\<close> resolves, and whether
  \<^verbatim>\<open>createDetector\<close> constructs each variant (it throws otherwise).\<close>

record PoseBackend =
  tfReady :: bool
  createDetector :: "modelVariant \<Rightarrow> bool"

datatype initResult = Resolved | RejectedWith string | JoinedInFlight

text \<open>The message of the one \<^verbatim>\<open>Error\<close> the function throws itself; the errors caught
  from the collaborator are written to the console and dropped.\<close>

definition initFailureMessage :: string where
  "initFailureMessage =
     ''Failed to initialize pose detector. Please check your internet connection and try refreshing the page.''"

text \<open>
  One call of \<^verbatim>\<open>initializePoseDetector\<close>, run to the settlement of the promise it
  returns. The result comes with the module's variables and the list of
  \<^verbatim>\<open>createDetector\<close> calls made, in order.
\<close>

definition initializePoseDetector ::
  "PoseBackend \<Rightarrow> PoseModule \<Rightarrow> initResult \<times> PoseModule \<times> modelVariant list" where
  "initializePoseDetector env s =
     (if isInitialized s \<and> detector s \<noteq> None then (Resolved, s, [])
      else if initializationPromise s then (JoinedInFlight, s, [])
      else
        let made1 = (if tfReady env then [MoveNetLightning] else []) in
        if tfReady env \<and> createDetector env MoveNetLightning
        then (Resolved,
              s\<lparr>detector := Some MoveNetLightning, isInitialized := True,
                initializationPromise := False\<rparr>, made1)
        else if createDetector env MoveNetThunder
        then (Resolved,
              s\<lparr>detector := Some MoveNetThunder, isInitialized := True,
                initializationPromise := False\<rparr>, made1 @ [MoveNetThunder])
        else if createDetector env BlazePoseLite
        then (Resolved,
              s\<lparr>detector := Some BlazePoseLite, isInitialized := True,
                initializationPromise := False\<rparr>, made1 @ [MoveNetThunder, BlazePoseLite])
        else (RejectedWith initFailureMessage,
              s\<lparr>initializationPromise := False\<rparr>, made1 @ [MoveNetThunder, BlazePoseLite]))"

subsection \<open>Example backends\<close>

text \<open>A backend that never becomes ready although MoveNet Lightning could be built,
  and a backend on which no variant can be built.\<close>

definition lightningOnly :: "modelVariant \<Rightarrow> bool" where
  "lightningOnly v = (v = MoveNetLightning)"

definition backendNotReady :: PoseBackend where
  "backendNotReady = \<lparr>tfReady = False, createDetector = lightningOnly\<rparr>"

definition noVariant :: "modelVariant \<Rightarrow> bool" where
  "noVariant v = False"

definition backendBroken :: PoseBackend where
  "backendBroken = \<lparr>tfReady = True, createDetector = noVariant\<rparr>"

definition thunderOnly :: "modelVariant \<Rightarrow> bool" where
  "thunderOnly v = (v = MoveNetThunder)"

definition backendThunder :: PoseBackend where
  "backendThunder = \<lparr>tfReady = True, createDetector = thunderOnly\<rparr>"

subsection \<open>Example frames\<close>

text \<open>One-pixel frames used to run the definitions on concrete inputs.\<close>

definition blackPixel :: ImageData where
  "blackPixel = \<lparr>width = 1, height = 1, data = [0, 0, 0, 255]\<rparr>"

definition whitePixel :: ImageData where
  "whitePixel = \<lparr>width = 1, height = 1, data = [255, 255, 255, 255]\<rparr>"







section \<open>Properties of the frame buffer\<close>

lemma padLoop_eq:
  "padLoop lastFrame m buf = buf @ replicate (m - length buf) lastFrame"
proof (induction lastFrame m buf rule: padLoop.induct)
  case (1 lastFrame m buf)
  show ?case
  proof (cases "length buf < m")
    case True
    then have "m - length buf = Suc (m - Suc (length buf))" by simp
    with True "1" show ?thesis
      by (simp add: padLoop.simps [of lastFrame m buf] replicate_app_Cons_same)
  next
    case False
    then show ?thesis by (simp add: padLoop.simps [of lastFrame m buf])
  qed
qed

lemma length_padLoop: "length (padLoop lastFrame m buf) = max m (length buf)"
  by (simp add: padLoop_eq)

lemma addFrame_length_le:
  "length (buffer s) \<le> maxFrames s \<Longrightarrow> length (buffer (snd (addFrame now ctx s))) \<le> maxFrames s"
  by (auto simp: addFrame_def Let_def split: option.splits)

lemma addFrame_maxFrames [simp]: "maxFrames (snd (addFrame now ctx s)) = maxFrames s"
  by (auto simp: addFrame_def Let_def split: option.splits)

lemma getFrames_maxFrames [simp]: "maxFrames (snd (getFrames s)) = maxFrames s"
  by (simp add: getFrames_def Let_def)

lemma getFrames_length_le:
  "length (buffer s) \<le> maxFrames s \<Longrightarrow> length (buffer (snd (getFrames s))) \<le> maxFrames s"
  by (simp add: getFrames_def Let_def length_padLoop)

lemma exec_maxFrames [simp]: "maxFrames (exec op s) = maxFrames s"
  by (cases op) (simp_all add: clear_def resetMotionFlag_def)

lemma exec_length_le:
  "length (buffer s) \<le> maxFrames s \<Longrightarrow> length (buffer (exec op s)) \<le> maxFrames s"
  by (cases op) (simp_all add: addFrame_length_le getFrames_length_le clear_def resetMotionFlag_def)

lemma run_bounded:
  "length (buffer s) \<le> maxFrames s \<Longrightarrow>
   length (buffer (run ops s)) \<le> maxFrames s \<and> maxFrames (run ops s) = maxFrames s"
proof (induction ops arbitrary: s)
  case Nil
  then show ?case by (simp add: run_def)
next
  case (Cons op ops)
  from Cons.prems have "length (buffer (exec op s)) \<le> maxFrames (exec op s)"
    by (simp add: exec_length_le)
  from Cons.IH [OF this] show ?case by (simp add: run_def)
qed

lemma run_new_bounded:
  "length (buffer (run ops (new_FrameBuffer m iv thr))) \<le> m
   \<and> maxFrames (run ops (new_FrameBuffer m iv thr)) = m"
  using run_bounded [of "new_FrameBuffer m iv thr" ops] by (simp add: new_FrameBuffer_def)

lemma getFrames_nonempty:
  "buffer s \<noteq> [] \<Longrightarrow> length (buffer s) \<le> maxFrames s \<Longrightarrow>
   fst (getFrames s) =
     map base64 (buffer s) @ replicate (maxFrames s - length (buffer s)) (base64 (last (buffer s)))"
  by (cases "length (buffer s) < maxFrames s") (simp_all add: getFrames_def Let_def padLoop_eq)

subsection \<open>Length of the transmitted batch\<close>

text \<open>
  C3, as stated, fails on the empty buffer: a new buffer of capacity 8 gives the empty
  sequence, not 8 frames (the padding is guarded by \<^verbatim>\<open>this.buffer.length > 0\<close>).
\<close>

theorem C3_getFrames_empty_counterexample:
  "maxFrames default_FrameBuffer = 8 \<and> length (fst (getFrames default_FrameBuffer)) = 0"
  by (simp add: default_FrameBuffer_def new_FrameBuffer_def getFrames_def)

text \<open>
  C3 (amended): in every state that a run of operations reaches from a new buffer of
  capacity \<open>m\<close>, \<^verbatim>\<open>getFrames()\<close> on a non-empty window returns exactly \<open>m\<close> encoded
  frames, namely the stored frames in order followed by copies of the last one; on an
  empty window it returns the empty sequence.
\<close>

theorem C3_getFrames_length:
  assumes "s = run ops (new_FrameBuffer m iv thr)"
  shows "(buffer s \<noteq> [] \<longrightarrow>
            length (fst (getFrames s)) = m
            \<and> fst (getFrames s) =
                map base64 (buffer s) @ replicate (m - length (buffer s)) (base64 (last (buffer s))))
         \<and> (buffer s = [] \<longrightarrow> fst (getFrames s) = [])"
proof -
  from assms run_new_bounded [of ops m iv thr]
  have b: "length (buffer s) \<le> maxFrames s" and m: "maxFrames s = m" by simp_all
  have "fst (getFrames s) = []" if "buffer s = []"
    using that by (simp add: getFrames_def)
  moreover have "fst (getFrames s) =
      map base64 (buffer s) @ replicate (m - length (buffer s)) (base64 (last (buffer s)))"
    if "buffer s \<noteq> []"
    using getFrames_nonempty [OF that b] m by simp
  moreover have "length (fst (getFrames s)) = m" if "buffer s \<noteq> []"
    using getFrames_nonempty [OF that b] b m by simp
  ultimately show ?thesis by blast
qed

theorem C3_getFrames_length_witness:
  "buffer (run [AddFrame 200 (Some (''f1'', blackPixel))] (new_FrameBuffer 8 200 (Num 1))) \<noteq> []
   \<and> fst (getFrames (run [AddFrame 200 (Some (''f1'', blackPixel))] (new_FrameBuffer 8 200 (Num 1))))
       = replicate 8 ''f1''"
proof -
  have r: "run [AddFrame 200 (Some (''f1'', blackPixel))] (new_FrameBuffer 8 200 (Num 1)) =
      \<lparr>buffer = [\<lparr>base64 = ''f1'', imageData = blackPixel, timestamp = 200\<rparr>], maxFrames = 8,
       frameInterval = 200, motionThreshold = Num 1, lastCaptureTime = 200,
       hasSignificantMotion = False\<rparr>"
    by (simp add: run_def new_FrameBuffer_def addFrame_def)
  show ?thesis
    using C3_getFrames_length [OF refl, of "[AddFrame 200 (Some (''f1'', blackPixel))]" 8 200 "Num 1"]
    unfolding r by (simp add: numeral_eq_Suc)
qed

subsection \<open>Readiness\<close>

lemma addFrame_accepted:
  assumes "\<not> now - lastCaptureTime s < frameInterval s"
  shows "addFrame now (Some (b64, img)) s =
    (Inr (maxFrames s \<le> length (buffer (snd (addFrame now (Some (b64, img)) s)))
          \<and> hasSignificantMotion (snd (addFrame now (Some (b64, img)) s))),
     snd (addFrame now (Some (b64, img)) s))"
  using assms by (simp add: addFrame_def Let_def)

lemma addFrame_flag:
  assumes "\<not> now - lastCaptureTime s < frameInterval s"
  shows "hasSignificantMotion (snd (addFrame now (Some (b64, img)) s)) =
    (hasSignificantMotion s
     \<or> (buffer s \<noteq> []
        \<and> js_gt (calculateMotion (imageData (last (buffer s))) img) (motionThreshold s)))"
  using assms by (auto simp: addFrame_def Let_def)

lemma addFrame_buffer:
  assumes "\<not> now - lastCaptureTime s < frameInterval s"
  shows "buffer (snd (addFrame now (Some (b64, img)) s)) =
    (if length (buffer s) < maxFrames s then buffer s @ [frameOf (now, b64, img)]
     else tl (buffer s @ [frameOf (now, b64, img)]))"
  using assms by (auto simp: addFrame_def Let_def frameOf_def)

lemma addFrame_fields [simp]:
  "frameInterval (snd (addFrame now ctx s)) = frameInterval s"
  "motionThreshold (snd (addFrame now ctx s)) = motionThreshold s"
  by (auto simp: addFrame_def Let_def split: option.splits)

lemma addFrame_lastCaptureTime:
  "\<not> now - lastCaptureTime s < frameInterval s \<Longrightarrow>
   lastCaptureTime (snd (addFrame now ctx s)) = now"
  by (auto simp: addFrame_def Let_def split: option.splits)

lemma still_tl: "still thr (x # xs) \<Longrightarrow> still thr xs"
  by (cases xs) auto

lemma still_mid: "still thr (xs @ a # b # r) \<Longrightarrow> \<not> js_gt (calculateMotion a b) thr"
proof (induction xs)
  case Nil
  then show ?case by simp
next
  case (Cons x xs)
  from Cons.prems have "still thr (xs @ a # b # r)"
    using still_tl [of thr x "xs @ a # b # r"] by simp
  then show ?case by (rule Cons.IH)
qed

lemma static_scene_aux:
  assumes "spaced (frameInterval s) (lastCaptureTime s) cs"
    and "still (motionThreshold s) (map imageData (buffer s) @ map (\<lambda>c. snd (snd c)) cs)"
    and "\<not> hasSignificantMotion s"
  shows "set (fst (addFrames cs s)) \<subseteq> {Inr False}
         \<and> \<not> hasSignificantMotion (snd (addFrames cs s))"
  using assms
proof (induction cs arbitrary: s)
  case Nil
  then show ?case by simp
next
  case (Cons c cs)
  obtain now b64 img where c: "c = (now, b64, img)" by (cases c) auto
  let ?s' = "snd (addFrame now (Some (b64, img)) s)"
  let ?f = "frameOf (now, b64, img)"
  from Cons.prems(1) c have acc: "\<not> now - lastCaptureTime s < frameInterval s"
    and sp: "spaced (frameInterval s) now cs" by simp_all
  have st: "still (motionThreshold s) (map imageData (buffer s) @ img # map (\<lambda>c. snd (snd c)) cs)"
    using Cons.prems(2) c by simp
  have quiet: "\<not> js_gt (calculateMotion (imageData (last (buffer s))) img) (motionThreshold s)"
    if "buffer s \<noteq> []"
  proof -
    from that obtain ys y where ys: "buffer s = ys @ [y]"
      by (metis append_butlast_last_id)
    from st ys have "still (motionThreshold s)
        (map imageData ys @ imageData y # img # map (\<lambda>c. snd (snd c)) cs)" by simp
    from still_mid [OF this] ys show ?thesis by simp
  qed
  have flag: "\<not> hasSignificantMotion ?s'"
    using addFrame_flag [OF acc, of b64 img] Cons.prems(3) quiet by auto
  have res: "fst (addFrame now (Some (b64, img)) s) = Inr False"
    using acc flag by (simp add: addFrame_def Let_def)
  have full: "still (motionThreshold s)
      (map imageData (buffer s @ [?f]) @ map (\<lambda>c. snd (snd c)) cs)"
    using st by (simp add: frameOf_def)
  have st': "still (motionThreshold ?s') (map imageData (buffer ?s') @ map (\<lambda>c. snd (snd c)) cs)"
  proof (cases "length (buffer s) < maxFrames s")
    case True
    then show ?thesis using full addFrame_buffer [OF acc, of b64 img] by simp
  next
    case False
    then have b: "buffer ?s' = tl (buffer s @ [?f])"
      using addFrame_buffer [OF acc, of b64 img] by simp
    obtain z zs where z: "buffer s @ [?f] = z # zs"
      by (cases "buffer s @ [?f]") auto
    from full z have "still (motionThreshold s) (imageData z # (map imageData zs @ map (\<lambda>c. snd (snd c)) cs))"
      by simp
    from still_tl [OF this] b z show ?thesis by simp
  qed
  have sp': "spaced (frameInterval ?s') (lastCaptureTime ?s') cs"
    using sp addFrame_lastCaptureTime [OF acc] by simp
  have unf: "addFrames (c # cs) s =
      (fst (addFrame now (Some (b64, img)) s) # fst (addFrames cs ?s'), snd (addFrames cs ?s'))"
    unfolding c by (simp add: split_beta)
  from Cons.IH [OF sp' st' flag] res show ?case
    unfolding unf by simp
qed

subsection \<open>Concrete evaluations\<close>

lemma defaultMotionThreshold_value:
  "defaultMotionThreshold = Num (5404319552844595 / 36028797018963968)"
  unfolding defaultMotionThreshold_def by code_simp

lemma fl_small_ints: "fl 1 = 1" "fl 255 = 255" "fl (- 255) = - 255"
  by code_simp+

lemma fl_one_third: "fl (1 / 3) = 6004799503160661 / 18014398509481984"
  by code_simp

lemma gray_blackPixel: "gray (data blackPixel) 0 = Num 0"
  by (simp add: gray_def blackPixel_def fl_def)

lemma gray_whitePixel: "gray (data whitePixel) 0 = Num 255"
  by (simp add: gray_def whitePixel_def fl_small_ints)

lemma countChanged_one_pixel:
  "length d1 = 4 \<Longrightarrow>
   countChanged d1 d2 0 0 = (if js_gt (js_abs (js_sub (gray d1 0) (gray d2 0))) (Num 30) then 1 else 0)"
  by (simp add: countChanged.simps [of d1 d2 0] countChanged.simps [of d1 d2 4])

lemma motion_black_black: "calculateMotion blackPixel blackPixel = Num 0"
proof -
  have "countChanged (data blackPixel) (data blackPixel) 0 0 = 0"
    by (simp add: countChanged_one_pixel blackPixel_def gray_blackPixel [unfolded blackPixel_def, simplified] fl_def)
  then show ?thesis
    by (simp add: calculateMotion_def) (simp add: blackPixel_def fl_def)
qed

lemma motion_black_white: "calculateMotion blackPixel whitePixel = Num 1"
proof -
  have "countChanged (data blackPixel) (data whitePixel) 0 0 = 1"
    by (simp add: countChanged_one_pixel blackPixel_def whitePixel_def
        gray_blackPixel [unfolded blackPixel_def, simplified]
        gray_whitePixel [unfolded whitePixel_def, simplified] fl_small_ints)
  then show ?thesis
    by (simp add: calculateMotion_def) (simp add: blackPixel_def whitePixel_def fl_small_ints)
qed

text \<open>
  C1: in every state reached from a new buffer of capacity \<open>m\<close>, an accepted push
  (one that passes the throttle and gets a canvas context) returns true exactly when,
  after it, the window holds \<open>m\<close> frames and the motion flag is set, and
  \<^verbatim>\<open>isReady()\<close> then says the same. For every sequence of accepted pushes into a new
  buffer in which no frame differs from its predecessor by more than the threshold,
  every \<^verbatim>\<open>addFrame\<close> returns false, however long the sequence, and the buffer is
  not ready afterwards.
\<close>

theorem C1_readiness:
  assumes "s = run ops (new_FrameBuffer m iv thr)"
    and "\<not> now - lastCaptureTime s < frameInterval s"
    and "s' = snd (addFrame now (Some (b64, img)) s)"
    and "spaced iv 0 cs"
    and "still thr (map (\<lambda>c. snd (snd c)) cs)"
  shows "fst (addFrame now (Some (b64, img)) s)
           = Inr (length (buffer s') = m \<and> hasSignificantMotion s')
         \<and> isReady s' = (length (buffer s') = m \<and> hasSignificantMotion s')
         \<and> (\<forall>r \<in> set (fst (addFrames cs (new_FrameBuffer m iv thr))). r = Inr False)
         \<and> \<not> isReady (snd (addFrames cs (new_FrameBuffer m iv thr)))"
proof -
  from assms(1) run_new_bounded [of ops m iv thr]
  have b: "length (buffer s) \<le> maxFrames s" and m: "maxFrames s = m" by simp_all
  from addFrame_length_le [OF b, of now "Some (b64, img)"] assms(3) m
  have le: "length (buffer s') \<le> m" and m': "maxFrames s' = m" by simp_all
  from addFrame_accepted [OF assms(2), of b64 img] assms(3)
  have "fst (addFrame now (Some (b64, img)) s)
          = Inr (maxFrames s \<le> length (buffer s') \<and> hasSignificantMotion s')"
    by (metis fst_conv)
  moreover from le have "(m \<le> length (buffer s')) = (length (buffer s') = m)"
    by auto
  ultimately have A: "fst (addFrame now (Some (b64, img)) s)
          = Inr (length (buffer s') = m \<and> hasSignificantMotion s')"
    using m by simp
  have B: "isReady s' = (length (buffer s') = m \<and> hasSignificantMotion s')"
    using le m' by (auto simp: isReady_def)
  have "set (fst (addFrames cs (new_FrameBuffer m iv thr))) \<subseteq> {Inr False}
        \<and> \<not> hasSignificantMotion (snd (addFrames cs (new_FrameBuffer m iv thr)))"
    by (rule static_scene_aux) (use assms(4,5) in \<open>simp_all add: new_FrameBuffer_def\<close>)
  then have C: "\<forall>r \<in> set (fst (addFrames cs (new_FrameBuffer m iv thr))). r = Inr False"
    and D: "\<not> isReady (snd (addFrames cs (new_FrameBuffer m iv thr)))"
    by (auto simp: isReady_def)
  from A B C D show ?thesis by blast
qed

theorem C1_readiness_witness:
  "fst (addFrame 400 (Some (''f2'', whitePixel))
          (run [AddFrame 200 (Some (''f1'', blackPixel))]
             (new_FrameBuffer 2 200 defaultMotionThreshold))) = Inr True
   \<and> fst (addFrames [(200, ''f1'', blackPixel), (400, ''f2'', blackPixel), (600, ''f3'', blackPixel)]
            (new_FrameBuffer 2 200 defaultMotionThreshold)) = [Inr False, Inr False, Inr False]"
proof -
  let ?thr = defaultMotionThreshold
  let ?cs = "[(200, ''f1'', blackPixel), (400, ''f2'', blackPixel), (600, ''f3'', blackPixel)]"
  have r: "run [AddFrame 200 (Some (''f1'', blackPixel))] (new_FrameBuffer 2 200 ?thr) =
      \<lparr>buffer = [\<lparr>base64 = ''f1'', imageData = blackPixel, timestamp = 200\<rparr>], maxFrames = 2,
       frameInterval = 200, motionThreshold = ?thr, lastCaptureTime = 200,
       hasSignificantMotion = False\<rparr>"
    by (simp add: run_def new_FrameBuffer_def addFrame_def)
  have h2: "\<not> 400 - lastCaptureTime (run [AddFrame 200 (Some (''f1'', blackPixel))]
              (new_FrameBuffer 2 200 ?thr))
            < frameInterval (run [AddFrame 200 (Some (''f1'', blackPixel))]
              (new_FrameBuffer 2 200 ?thr))"
    unfolding r by simp
  have h4: "spaced 200 0 ?cs" by simp
  have h5: "still ?thr (map (\<lambda>c. snd (snd c)) ?cs)"
    by (simp add: motion_black_black defaultMotionThreshold_value)
  have s': "snd (addFrame 400 (Some (''f2'', whitePixel))
              (run [AddFrame 200 (Some (''f1'', blackPixel))] (new_FrameBuffer 2 200 ?thr))) =
      \<lparr>buffer = [\<lparr>base64 = ''f1'', imageData = blackPixel, timestamp = 200\<rparr>,
                 \<lparr>base64 = ''f2'', imageData = whitePixel, timestamp = 400\<rparr>], maxFrames = 2,
       frameInterval = 200, motionThreshold = ?thr, lastCaptureTime = 400,
       hasSignificantMotion = True\<rparr>"
    unfolding r by (simp add: addFrame_def motion_black_white defaultMotionThreshold_value)
  have len: "length (fst (addFrames ?cs (new_FrameBuffer 2 200 ?thr))) = 3"
    by (simp add: split_beta)
  from C1_readiness [OF refl h2 refl h4 h5, of "''f2''" whitePixel]
  have a: "fst (addFrame 400 (Some (''f2'', whitePixel))
          (run [AddFrame 200 (Some (''f1'', blackPixel))] (new_FrameBuffer 2 200 ?thr))) = Inr True"
    and b: "\<forall>r \<in> set (fst (addFrames ?cs (new_FrameBuffer 2 200 ?thr))). r = Inr False"
    unfolding s' by simp_all
  from b len have "fst (addFrames ?cs (new_FrameBuffer 2 200 ?thr)) = [Inr False, Inr False, Inr False]"
    by (simp add: split_beta)
  with a show ?thesis by simp
qed

subsection \<open>The motion flag\<close>

lemma addFrame_keeps_flag:
  "hasSignificantMotion s \<Longrightarrow> hasSignificantMotion (snd (addFrame now ctx s))"
  by (auto simp: addFrame_def Let_def split: option.splits)

lemma getFrames_flag [simp]:
  "hasSignificantMotion (snd (getFrames s)) = hasSignificantMotion s"
  by (simp add: getFrames_def Let_def)

lemma exec_keeps_flag:
  "hasSignificantMotion s \<Longrightarrow> op \<noteq> ResetMotionFlag \<Longrightarrow> op \<noteq> Clear \<Longrightarrow>
   hasSignificantMotion (exec op s)"
  by (cases op) (simp_all add: addFrame_keeps_flag)

lemma run_keeps_flag:
  "hasSignificantMotion s \<Longrightarrow> ResetMotionFlag \<notin> set ops \<Longrightarrow> Clear \<notin> set ops \<Longrightarrow>
   hasSignificantMotion (run ops s)"
proof (induction ops arbitrary: s)
  case Nil
  then show ?case by (simp add: run_def)
next
  case (Cons op ops)
  from Cons.prems have "hasSignificantMotion (exec op s)"
    by (intro exec_keeps_flag) auto
  from Cons.IH [OF this] Cons.prems show ?case by (simp add: run_def)
qed

lemma motion_white_white: "calculateMotion whitePixel whitePixel = Num 0"
proof -
  have "countChanged (data whitePixel) (data whitePixel) 0 0 = 0"
    by (simp add: countChanged_one_pixel whitePixel_def
        gray_whitePixel [unfolded whitePixel_def, simplified] fl_def)
  then show ?thesis
    by (simp add: calculateMotion_def) (simp add: whitePixel_def fl_def)
qed

text \<open>
  C5: when an accepted push onto a non-empty window observes a motion score above the
  threshold, the motion flag is set; the flag is still set after every further sequence
  of operations that contains neither \<^verbatim>\<open>resetMotionFlag()\<close> nor \<^verbatim>\<open>clear()\<close>; and an
  accepted push made after that returns true exactly when it leaves the window full,
  whatever motion it observes itself.
\<close>

theorem C5_motion_flag_monotone:
  assumes "\<not> now - lastCaptureTime s < frameInterval s"
    and "buffer s \<noteq> []"
    and "js_gt (calculateMotion (imageData (last (buffer s))) img) (motionThreshold s)"
    and "ResetMotionFlag \<notin> set ops"
    and "Clear \<notin> set ops"
    and "t = run ops (snd (addFrame now (Some (jpeg, img)) s))"
    and "\<not> now' - lastCaptureTime t < frameInterval t"
  shows "hasSignificantMotion (snd (addFrame now (Some (jpeg, img)) s))
         \<and> hasSignificantMotion t
         \<and> fst (addFrame now' (Some (jpeg', img')) t)
             = Inr (maxFrames t \<le> length (buffer (snd (addFrame now' (Some (jpeg', img')) t))))"
proof -
  have a: "hasSignificantMotion (snd (addFrame now (Some (jpeg, img)) s))"
    using addFrame_flag [OF assms(1), of jpeg img] assms(2,3) by simp
  from run_keeps_flag [OF a assms(4,5)] assms(6) have b: "hasSignificantMotion t" by simp
  from addFrame_keeps_flag [OF b] have "hasSignificantMotion (snd (addFrame now' (Some (jpeg', img')) t))" .
  with assms(7) have "fst (addFrame now' (Some (jpeg', img')) t)
             = Inr (maxFrames t \<le> length (buffer (snd (addFrame now' (Some (jpeg', img')) t))))"
    by (simp add: addFrame_def Let_def)
  with a b show ?thesis by blast
qed

theorem C5_motion_flag_monotone_witness:
  "hasSignificantMotion
     (run [GetMotionLevel, AddFrame 600 (Some (''f3'', whitePixel)), IsReady, GetFrames]
        (snd (addFrame 400 (Some (''f2'', whitePixel))
               (run [AddFrame 200 (Some (''f1'', blackPixel))] (new_FrameBuffer 3 200 defaultMotionThreshold)))))
   \<and> fst (addFrame 800 (Some (''f4'', whitePixel))
       (run [GetMotionLevel, AddFrame 600 (Some (''f3'', whitePixel)), IsReady, GetFrames]
        (snd (addFrame 400 (Some (''f2'', whitePixel))
               (run [AddFrame 200 (Some (''f1'', blackPixel))] (new_FrameBuffer 3 200 defaultMotionThreshold)))))) = Inr True"
proof -
  let ?thr = defaultMotionThreshold
  let ?s = "run [AddFrame 200 (Some (''f1'', blackPixel))] (new_FrameBuffer 3 200 ?thr)"
  let ?ops = "[GetMotionLevel, AddFrame 600 (Some (''f3'', whitePixel)), IsReady, GetFrames]"
  let ?f1 = "\<lparr>base64 = ''f1'', imageData = blackPixel, timestamp = 200\<rparr>"
  let ?f2 = "\<lparr>base64 = ''f2'', imageData = whitePixel, timestamp = 400\<rparr>"
  let ?f3 = "\<lparr>base64 = ''f3'', imageData = whitePixel, timestamp = 600\<rparr>"
  have r: "?s =
      \<lparr>buffer = [?f1], maxFrames = 3,
       frameInterval = 200, motionThreshold = ?thr, lastCaptureTime = 200,
       hasSignificantMotion = False\<rparr>"
    by (simp add: run_def new_FrameBuffer_def addFrame_def)
  have h1: "\<not> 400 - lastCaptureTime ?s < frameInterval ?s" unfolding r by simp
  have h2: "buffer ?s \<noteq> []" unfolding r by simp
  have h3: "js_gt (calculateMotion (imageData (last (buffer ?s))) whitePixel) (motionThreshold ?s)"
    unfolding r by (simp add: motion_black_white defaultMotionThreshold_value)
  have h4: "ResetMotionFlag \<notin> set ?ops" and h5: "Clear \<notin> set ?ops" by simp_all
  have s1: "snd (addFrame 400 (Some (''f2'', whitePixel)) ?s) =
      \<lparr>buffer = [?f1, ?f2], maxFrames = 3,
       frameInterval = 200, motionThreshold = ?thr, lastCaptureTime = 400,
       hasSignificantMotion = True\<rparr>"
    unfolding r by (simp add: addFrame_def motion_black_white defaultMotionThreshold_value)
  have t: "run ?ops (snd (addFrame 400 (Some (''f2'', whitePixel)) ?s)) =
      \<lparr>buffer = [?f1, ?f2, ?f3], maxFrames = 3,
       frameInterval = 200, motionThreshold = ?thr, lastCaptureTime = 600,
       hasSignificantMotion = True\<rparr>"
    unfolding s1 by (simp add: run_def addFrame_def getFrames_def motion_white_white defaultMotionThreshold_value)
  have h7: "\<not> 800 - lastCaptureTime (run ?ops (snd (addFrame 400 (Some (''f2'', whitePixel)) ?s)))
      < frameInterval (run ?ops (snd (addFrame 400 (Some (''f2'', whitePixel)) ?s)))"
    unfolding t by simp
  have len': "length (buffer (snd (addFrame 800 (Some (''f4'', whitePixel))
       (run ?ops (snd (addFrame 400 (Some (''f2'', whitePixel)) ?s)))))) = 3"
    unfolding t by (simp add: addFrame_def motion_white_white defaultMotionThreshold_value)
  from C5_motion_flag_monotone [where jpeg = "''f2''" and jpeg' = "''f4''" and img' = whitePixel,
      OF h1 h2 h3 h4 h5 refl h7]
  show ?thesis unfolding len' by (simp add: t)
qed

subsection \<open>Padding in place\<close>

lemma addFrames_full:
  "length (buffer s) = maxFrames s \<Longrightarrow> spaced (frameInterval s) (lastCaptureTime s) cs \<Longrightarrow>
   buffer (snd (addFrames cs s)) = drop (length cs) (buffer s @ map frameOf cs)"
proof (induction cs arbitrary: s)
  case Nil
  then show ?case by simp
next
  case (Cons c cs)
  obtain now jpeg img where c: "c = (now, jpeg, img)" by (cases c) auto
  let ?s' = "snd (addFrame now (Some (jpeg, img)) s)"
  from Cons.prems(2) c have acc: "\<not> now - lastCaptureTime s < frameInterval s"
    and sp: "spaced (frameInterval s) now cs" by simp_all
  have b: "buffer ?s' = tl (buffer s @ [frameOf c])"
    using addFrame_buffer [OF acc, of jpeg img] Cons.prems(1) c by simp
  then have len: "length (buffer ?s') = maxFrames ?s'"
    using Cons.prems(1) by simp
  have sp': "spaced (frameInterval ?s') (lastCaptureTime ?s') cs"
    using sp addFrame_lastCaptureTime [OF acc] by simp
  have unf: "snd (addFrames (c # cs) s) = snd (addFrames cs ?s')"
    unfolding c by (simp add: split_beta)
  have e: "tl (buffer s @ [frameOf c]) @ map frameOf cs = tl (buffer s @ frameOf c # map frameOf cs)"
    by (cases "buffer s") simp_all
  have "buffer (snd (addFrames cs ?s')) = drop (length cs) (tl (buffer s @ frameOf c # map frameOf cs))"
    using Cons.IH [OF len sp'] unfolding b e .
  also have "\<dots> = drop (Suc (length cs)) (buffer s @ frameOf c # map frameOf cs)"
    by (simp only: drop_Suc)
  finally show ?case unfolding unf by simp
qed

text \<open>
  C10: \<^verbatim>\<open>getFrames()\<close> on a window of at least one and fewer than \<open>maxFrames\<close> frames
  changes the buffer itself: copies of the last stored frame are appended until the
  window is full, nothing else changes, and the returned batch is the padded window.
  The copies are ordinary entries from then on: the next accepted push drops the
  oldest entry and is compared with the duplicated last frame, and after \<open>k\<close> accepted
  pushes the first \<open>k\<close> entries of the padded window are gone. On an empty buffer
  \<^verbatim>\<open>getFrames()\<close> returns the empty sequence and leaves the buffer as it is.
\<close>

theorem C10_getFrames_pads_in_place:
  assumes "buffer s \<noteq> []"
    and "length (buffer s) < maxFrames s"
    and "s' = snd (getFrames s)"
    and "\<not> now - lastCaptureTime s < frameInterval s"
    and "spaced (frameInterval s) (lastCaptureTime s) cs"
    and "buffer e = []"
  shows "s' = s\<lparr>buffer := buffer s @ replicate (maxFrames s - length (buffer s)) (last (buffer s))\<rparr>
         \<and> length (buffer s') = maxFrames s
         \<and> fst (getFrames s) = map base64 (buffer s')
         \<and> buffer (snd (addFrame now (Some (jpeg, img)) s'))
             = tl (buffer s') @ [frameOf (now, jpeg, img)]
         \<and> hasSignificantMotion (snd (addFrame now (Some (jpeg, img)) s'))
             = (hasSignificantMotion s
                \<or> js_gt (calculateMotion (imageData (last (buffer s))) img) (motionThreshold s))
         \<and> buffer (snd (addFrames cs s')) = drop (length cs) (buffer s' @ map frameOf cs)
         \<and> getFrames e = ([], e)"
proof -
  let ?pad = "replicate (maxFrames s - length (buffer s)) (last (buffer s))"
  have s': "s' = s\<lparr>buffer := buffer s @ ?pad\<rparr>"
    using assms(1,2,3) by (simp add: getFrames_def padLoop_eq)
  have len: "length (buffer s') = maxFrames s"
    using assms(2) by (simp add: s')
  have out: "fst (getFrames s) = map base64 (buffer s')"
    using assms(1,2) by (simp add: s' getFrames_def padLoop_eq)
  have acc: "\<not> now - lastCaptureTime s' < frameInterval s'"
    using assms(4) by (simp add: s')
  have ne: "buffer s' \<noteq> []" using assms(1) by (simp add: s')
  have push: "buffer (snd (addFrame now (Some (jpeg, img)) s'))
      = tl (buffer s') @ [frameOf (now, jpeg, img)]"
    using addFrame_buffer [OF acc, of jpeg img] len assms(1) by (simp add: s')
  have lst: "last (buffer s') = last (buffer s)"
    using assms(1) unfolding s' by (cases "maxFrames s - length (buffer s)") simp_all
  have flag: "hasSignificantMotion (snd (addFrame now (Some (jpeg, img)) s'))
      = (hasSignificantMotion s
         \<or> js_gt (calculateMotion (imageData (last (buffer s))) img) (motionThreshold s))"
    using addFrame_flag [OF acc, of jpeg img] ne lst by (simp add: s')
  have many: "buffer (snd (addFrames cs s')) = drop (length cs) (buffer s' @ map frameOf cs)"
    by (rule addFrames_full) (use len assms(5) in \<open>simp_all add: s'\<close>)
  have empty: "getFrames e = ([], e)"
    using assms(6) by (simp add: getFrames_def)
  from s' len out push flag many empty show ?thesis by blast
qed

theorem C10_getFrames_pads_in_place_witness:
  "fst (getFrames (run [AddFrame 200 (Some (''f1'', blackPixel))]
       (new_FrameBuffer 3 200 defaultMotionThreshold))) = [''f1'', ''f1'', ''f1'']
   \<and> map base64 (buffer (snd (addFrames [(400, ''f2'', whitePixel), (600, ''f3'', whitePixel)]
       (snd (getFrames (run [AddFrame 200 (Some (''f1'', blackPixel))]
          (new_FrameBuffer 3 200 defaultMotionThreshold)))))))
     = [''f1'', ''f2'', ''f3'']
   \<and> hasSignificantMotion (snd (addFrame 400 (Some (''f2'', whitePixel))
       (snd (getFrames (run [AddFrame 200 (Some (''f1'', blackPixel))]
          (new_FrameBuffer 3 200 defaultMotionThreshold))))))
   \<and> getFrames (new_FrameBuffer 3 200 defaultMotionThreshold)
       = ([], new_FrameBuffer 3 200 defaultMotionThreshold)"
proof -
  let ?thr = defaultMotionThreshold
  let ?s = "run [AddFrame 200 (Some (''f1'', blackPixel))] (new_FrameBuffer 3 200 ?thr)"
  let ?g = "snd (getFrames ?s)"
  let ?cs = "[(400, ''f2'', whitePixel), (600, ''f3'', whitePixel)] :: capture list"
  let ?f1 = "\<lparr>base64 = ''f1'', imageData = blackPixel, timestamp = 200\<rparr>"
  have r: "?s =
      \<lparr>buffer = [?f1], maxFrames = 3,
       frameInterval = 200, motionThreshold = ?thr, lastCaptureTime = 200,
       hasSignificantMotion = False\<rparr>"
    by (simp add: run_def new_FrameBuffer_def addFrame_def)
  have h1: "buffer ?s \<noteq> []" and h2: "length (buffer ?s) < maxFrames ?s"
    and h4: "\<not> 400 - lastCaptureTime ?s < frameInterval ?s"
    and h5: "spaced (frameInterval ?s) (lastCaptureTime ?s) ?cs"
    unfolding r by simp_all
  have h6: "buffer (new_FrameBuffer 3 200 ?thr) = []" by (simp add: new_FrameBuffer_def)
  have m: "js_gt (calculateMotion (imageData (last (buffer ?s))) whitePixel) (motionThreshold ?s)"
    unfolding r by (simp add: motion_black_white defaultMotionThreshold_value)
  note T = C10_getFrames_pads_in_place [where jpeg = "''f2''" and img = whitePixel
      and e = "new_FrameBuffer 3 200 ?thr", OF h1 h2 refl h4 h5 h6]
  from T have t1: "?g = ?s\<lparr>buffer := buffer ?s @ replicate (maxFrames ?s - length (buffer ?s)) (last (buffer ?s))\<rparr>"
    by (rule conjunct1)
  have pad: "buffer ?g = [?f1, ?f1, ?f1]"
    unfolding t1 unfolding r by (simp add: eval_nat_numeral)
  from T have "fst (getFrames ?s) = map base64 (buffer ?g)" by blast
  then have a: "fst (getFrames ?s) = [''f1'', ''f1'', ''f1'']" unfolding pad by simp
  from T have "buffer (snd (addFrames ?cs ?g)) = drop (length ?cs) (buffer ?g @ map frameOf ?cs)"
    by blast
  then have b: "map base64 (buffer (snd (addFrames ?cs ?g))) = [''f1'', ''f2'', ''f3'']"
    unfolding pad by (simp add: frameOf_def)
  from T m have c: "hasSignificantMotion (snd (addFrame 400 (Some (''f2'', whitePixel)) ?g))"
    by blast
  from T have d: "getFrames (new_FrameBuffer 3 200 ?thr) = ([], new_FrameBuffer 3 200 ?thr)"
    by blast
  from a b c d show ?thesis by blast
qed

section \<open>Properties of the inference coordinator\<close>

lemma handleFrameCapture_in_flight:
  "processingRef p \<Longrightarrow> handleFrameCapture t p = (Returned, p)"
  by (simp add: handleFrameCapture_def)

lemma deliver_in_flight: "processingRef p \<Longrightarrow> deliver ts p = p"
  by (induction ts) (simp_all add: deliver_def handleFrameCapture_in_flight)

lemma resume_releases:
  "\<not> processingRef (handleFrameCapture_resume st now p)"
  "\<not> isProcessing (handleFrameCapture_resume st now p)"
  "processingWrites (handleFrameCapture_resume st now p) = processingWrites p @ [False]"
  "isCameraActive (handleFrameCapture_resume st now p) = isCameraActive p"
  "predictLiveCalls (handleFrameCapture_resume st now p) = predictLiveCalls p"
  by (cases st; simp add: handleFrameCapture_resume_def finally_block_def try_block_def
      catch_block_def Let_def)+

lemma getFrames_ready:
  assumes "0 < maxFrames fb" and "maxFrames fb \<le> length (buffer fb)"
  shows "getFrames fb = (map base64 (buffer fb), fb)" and "map base64 (buffer fb) \<noteq> []"
  using assms by (auto simp: getFrames_def)

lemma addFrame_ready:
  assumes "addFrame now ctx fb = (Inr True, fb')"
  shows "maxFrames fb' \<le> length (buffer fb')" and "maxFrames fb' = maxFrames fb"
  using assms by (auto simp: addFrame_def Let_def split: if_splits option.splits)

lemma handleFrameCapture_ready:
  assumes "\<not> processingRef p" and "isCameraActive p"
    and "\<not> now_handler t - lastProcessTimeRef p < FRAME_INTERVAL_MS"
    and "addFrame (now_buffer t) (canvas t) (frameBufferRef p) = (Inr True, fb)"
    and "0 < maxFrames (frameBufferRef p)"
  shows "fst (handleFrameCapture t p) = AwaitingReply"
    and "predictLiveCalls (snd (handleFrameCapture t p))
           = predictLiveCalls p @ [framesToSend (map base64 (buffer fb))]"
    and "processingRef (snd (handleFrameCapture t p))"
    and "processingWrites (snd (handleFrameCapture t p)) = processingWrites p @ [True]"
proof -
  from addFrame_ready [OF assms(4)] assms(5)
  have pos: "0 < maxFrames fb" and full: "maxFrames fb \<le> length (buffer fb)" by simp_all
  note g = getFrames_ready [OF pos full]
  have ne: "framesToSend (map base64 (buffer fb)) \<noteq> []"
    using g(2) by (auto simp: framesToSend_def padLoop_eq)
  have pl: "predictLive (map base64 (buffer fb)) = Inr (framesToSend (map base64 (buffer fb)))"
    using ne by (simp add: predictLive_def)
  show "fst (handleFrameCapture t p) = AwaitingReply"
    using assms(1-4) by (simp add: handleFrameCapture_def Let_def g(1) pl)
  show "predictLiveCalls (snd (handleFrameCapture t p))
           = predictLiveCalls p @ [framesToSend (map base64 (buffer fb))]"
    using assms(1-4) by (simp add: handleFrameCapture_def Let_def g(1) pl)
  show "processingRef (snd (handleFrameCapture t p))"
    using assms(1-4) by (simp add: handleFrameCapture_def Let_def g(1) pl)
  show "processingWrites (snd (handleFrameCapture t p)) = processingWrites p @ [True]"
    using assms(1-4) by (simp add: handleFrameCapture_def Let_def g(1) pl)
qed

text \<open>
  C2: while a request is in flight (\<open>processingRef\<close> is set), every further call of the
  handler returns at once and leaves the whole state as it was, so no second request is
  sent, whatever the calls carry. When the request settles, fulfilled or rejected, the
  guard is clear and no request has been added; a call that then passes the handler's
  throttle and for which \<^verbatim>\<open>addFrame\<close> reports readiness sends exactly one new request,
  with the frames of the window, and sets the guard again.
\<close>

theorem C2_single_flight:
  assumes "processingRef p"
    and "q = handleFrameCapture_resume st now (deliver ts p)"
    and "isCameraActive q"
    and "\<not> now_handler t - lastProcessTimeRef q < FRAME_INTERVAL_MS"
    and "addFrame (now_buffer t) (canvas t) (frameBufferRef q) = (Inr True, fb)"
    and "0 < maxFrames (frameBufferRef q)"
  shows "deliver ts p = p
         \<and> predictLiveCalls (deliver ts p) = predictLiveCalls p
         \<and> \<not> processingRef q
         \<and> predictLiveCalls q = predictLiveCalls p
         \<and> fst (handleFrameCapture t q) = AwaitingReply
         \<and> predictLiveCalls (snd (handleFrameCapture t q))
             = predictLiveCalls p @ [framesToSend (map base64 (buffer fb))]
         \<and> processingRef (snd (handleFrameCapture t q))"
proof -
  have d: "deliver ts p = p" by (rule deliver_in_flight [OF assms(1)])
  have np: "\<not> processingRef q" and calls: "predictLiveCalls q = predictLiveCalls p"
    unfolding assms(2) d by (simp_all add: resume_releases)
  note r = handleFrameCapture_ready [OF np assms(3) assms(4) assms(5) assms(6)]
  from d np calls r show ?thesis by simp
qed

theorem C2_single_flight_witness:
  "deliver [\<lparr>videoWidth = 640, videoHeight = 480, now_handler = 1800, now_buffer = 1800,
              canvas = Some (''f1'', whitePixel)\<rparr>]
     (initialPage\<lparr>isCameraActive := True, processingRef := True, lastProcessTimeRef := 1600,
        frameBufferRef := default_FrameBuffer
          \<lparr>buffer := replicate 8 \<lparr>base64 = ''f0'', imageData = blackPixel, timestamp = 1600\<rparr>,
           lastCaptureTime := 1600\<rparr>,
        predictLiveCalls := [replicate 8 ''f0'']\<rparr>)
   = initialPage\<lparr>isCameraActive := True, processingRef := True, lastProcessTimeRef := 1600,
        frameBufferRef := default_FrameBuffer
          \<lparr>buffer := replicate 8 \<lparr>base64 = ''f0'', imageData = blackPixel, timestamp = 1600\<rparr>,
           lastCaptureTime := 1600\<rparr>,
        predictLiveCalls := [replicate 8 ''f0'']\<rparr>
   \<and> predictLiveCalls (snd (handleFrameCapture
        \<lparr>videoWidth = 640, videoHeight = 480, now_handler = 2000, now_buffer = 2000,
          canvas = Some (''f2'', whitePixel)\<rparr>
        (handleFrameCapture_resume (Rejected None) 1900
          (deliver [\<lparr>videoWidth = 640, videoHeight = 480, now_handler = 1800, now_buffer = 1800,
              canvas = Some (''f1'', whitePixel)\<rparr>]
            (initialPage\<lparr>isCameraActive := True, processingRef := True, lastProcessTimeRef := 1600,
               frameBufferRef := default_FrameBuffer
                 \<lparr>buffer := replicate 8 \<lparr>base64 = ''f0'', imageData = blackPixel, timestamp = 1600\<rparr>,
                  lastCaptureTime := 1600\<rparr>,
               predictLiveCalls := [replicate 8 ''f0'']\<rparr>)))))
     = [replicate 8 ''f0'', replicate 7 ''f0'' @ [''f2'']]"
proof -
  let ?f0 = "\<lparr>base64 = ''f0'', imageData = blackPixel, timestamp = 1600\<rparr>"
  let ?f2 = "\<lparr>base64 = ''f2'', imageData = whitePixel, timestamp = 2000\<rparr>"
  let ?p = "initialPage\<lparr>isCameraActive := True, processingRef := True, lastProcessTimeRef := 1600,
        frameBufferRef := default_FrameBuffer\<lparr>buffer := replicate 8 ?f0, lastCaptureTime := 1600\<rparr>,
        predictLiveCalls := [replicate 8 ''f0'']\<rparr>"
  let ?t1 = "\<lparr>videoWidth = 640, videoHeight = 480, now_handler = 1800, now_buffer = 1800,
              canvas = Some (''f1'', whitePixel)\<rparr>"
  let ?t = "\<lparr>videoWidth = 640, videoHeight = 480, now_handler = 2000, now_buffer = 2000,
              canvas = Some (''f2'', whitePixel)\<rparr>"
  let ?q = "handleFrameCapture_resume (Rejected None) 1900 (deliver [?t1] ?p)"
  let ?fb = "\<lparr>buffer = replicate 7 ?f0 @ [?f2], maxFrames = 8, frameInterval = 200,
              motionThreshold = defaultMotionThreshold, lastCaptureTime = 2000,
              hasSignificantMotion = True\<rparr>"
  have h1: "processingRef ?p" by simp
  have d: "deliver [?t1] ?p = ?p" by (rule deliver_in_flight [OF h1])
  have fbq: "frameBufferRef ?q =
      \<lparr>buffer = replicate 8 ?f0, maxFrames = 8, frameInterval = 200,
       motionThreshold = defaultMotionThreshold, lastCaptureTime = 1600,
       hasSignificantMotion = False\<rparr>"
    unfolding d
    by (simp add: handleFrameCapture_resume_def finally_block_def catch_block_def
        resetMotionFlag_def initialPage_def default_FrameBuffer_def new_FrameBuffer_def)
  have h3: "isCameraActive ?q" by (simp add: resume_releases d)
  have h4: "\<not> now_handler ?t - lastProcessTimeRef ?q < FRAME_INTERVAL_MS"
    unfolding d
    by (simp add: handleFrameCapture_resume_def finally_block_def catch_block_def
        FRAME_INTERVAL_MS_def)
  have h5: "addFrame (now_buffer ?t) (canvas ?t) (frameBufferRef ?q) = (Inr True, ?fb)"
    unfolding fbq
    by (simp add: addFrame_def motion_black_white defaultMotionThreshold_value eval_nat_numeral)
  have h6: "0 < maxFrames (frameBufferRef ?q)" unfolding fbq by simp
  note T = C2_single_flight [OF h1 refl h3 h4 h5 h6]
  from T have a: "deliver [?t1] ?p = ?p" by (rule conjunct1)
  from T have "predictLiveCalls (snd (handleFrameCapture ?t ?q))
      = predictLiveCalls ?p @ [framesToSend (map base64 (buffer ?fb))]" by blast
  then have b: "predictLiveCalls (snd (handleFrameCapture ?t ?q))
      = [replicate 8 ''f0'', replicate 7 ''f0'' @ [''f2'']]"
    by (simp add: framesToSend_def)
  from a b show ?thesis by blast
qed

lemma handleFrameCapture_awaiting:
  assumes "awaiting (fst (handleFrameCapture t p))"
  shows "processingRef (snd (handleFrameCapture t p))"
    and "processingWrites (snd (handleFrameCapture t p)) = processingWrites p @ [True]"
  using assms
  by (auto simp: handleFrameCapture_def Let_def split_beta
      split: if_splits prod.splits sum.splits)

text \<open>
  C6: let a call have acquired the guard. When its request fails, the message of the
  error (or \<^verbatim>\<open>'Prediction failed'\<close>) is stored for the UI, the camera stays active, the
  motion flag is reset while the frames stay, and the guard and the processing
  indicator are cleared. Whatever the settlement, between its entry and its end the
  call writes the guard exactly twice: \<open>True\<close> when it acquires it and \<open>False\<close> in the
  \<^verbatim>\<open>finally\<close> block.
\<close>

theorem C6_failure_releases_guard:
  assumes "awaiting (fst (handleFrameCapture t p))"
    and "p1 = deliver ts (snd (handleFrameCapture t p))"
    and "q = handleFrameCapture_resume (Rejected err) now p1"
  shows "error q = Some (case err of Some m \<Rightarrow> m | None \<Rightarrow> ''Prediction failed'')
         \<and> isCameraActive q = isCameraActive p1
         \<and> frameBufferRef q = resetMotionFlag (frameBufferRef p1)
         \<and> \<not> hasSignificantMotion (frameBufferRef q)
         \<and> buffer (frameBufferRef q) = buffer (frameBufferRef p1)
         \<and> \<not> processingRef q
         \<and> \<not> isProcessing q
         \<and> processingWrites q = processingWrites p @ [True, False]
         \<and> \<not> processingRef (handleFrameCapture_resume st now p1)
         \<and> processingWrites (handleFrameCapture_resume st now p1) = processingWrites p @ [True, False]"
proof -
  note a = handleFrameCapture_awaiting [OF assms(1)]
  have p1: "p1 = snd (handleFrameCapture t p)"
    unfolding assms(2) by (rule deliver_in_flight [OF a(1)])
  have w: "processingWrites p1 = processingWrites p @ [True]" unfolding p1 by (rule a(2))
  have "error q = Some (case err of Some m \<Rightarrow> m | None \<Rightarrow> ''Prediction failed'')"
    and "frameBufferRef q = resetMotionFlag (frameBufferRef p1)"
    unfolding assms(3)
    by (simp_all add: handleFrameCapture_resume_def finally_block_def catch_block_def)
  moreover from this(2) have "\<not> hasSignificantMotion (frameBufferRef q)"
    and "buffer (frameBufferRef q) = buffer (frameBufferRef p1)"
    by (simp_all add: resetMotionFlag_def)
  moreover have "isCameraActive q = isCameraActive p1" "\<not> processingRef q" "\<not> isProcessing q"
    "processingWrites q = processingWrites p @ [True, False]"
    unfolding assms(3) by (simp_all add: resume_releases w)
  moreover have "\<not> processingRef (handleFrameCapture_resume st now p1)"
    "processingWrites (handleFrameCapture_resume st now p1) = processingWrites p @ [True, False]"
    by (simp_all add: resume_releases w)
  ultimately show ?thesis by blast
qed

theorem C6_failure_releases_guard_witness:
  "error (handleFrameCapture_resume (Rejected (Some ''Prediction failed: 503 unavailable'')) 2100
      (deliver [\<lparr>videoWidth = 640, videoHeight = 480, now_handler = 2050, now_buffer = 2050,
                 canvas = Some (''f3'', whitePixel)\<rparr>]
        (snd (handleFrameCapture
           \<lparr>videoWidth = 640, videoHeight = 480, now_handler = 2000, now_buffer = 2000,
             canvas = Some (''f2'', whitePixel)\<rparr>
           (initialPage\<lparr>isCameraActive := True, lastProcessTimeRef := 1600,
              frameBufferRef := default_FrameBuffer
                \<lparr>buffer := replicate 8 \<lparr>base64 = ''f0'', imageData = blackPixel, timestamp = 1600\<rparr>,
                 lastCaptureTime := 1600\<rparr>\<rparr>)))))
     = Some ''Prediction failed: 503 unavailable''
   \<and> processingWrites (handleFrameCapture_resume (Rejected (Some ''Prediction failed: 503 unavailable'')) 2100
      (deliver [\<lparr>videoWidth = 640, videoHeight = 480, now_handler = 2050, now_buffer = 2050,
                 canvas = Some (''f3'', whitePixel)\<rparr>]
        (snd (handleFrameCapture
           \<lparr>videoWidth = 640, videoHeight = 480, now_handler = 2000, now_buffer = 2000,
             canvas = Some (''f2'', whitePixel)\<rparr>
           (initialPage\<lparr>isCameraActive := True, lastProcessTimeRef := 1600,
              frameBufferRef := default_FrameBuffer
                \<lparr>buffer := replicate 8 \<lparr>base64 = ''f0'', imageData = blackPixel, timestamp = 1600\<rparr>,
                 lastCaptureTime := 1600\<rparr>\<rparr>)))))
     = [True, False]"
proof -
  let ?f0 = "\<lparr>base64 = ''f0'', imageData = blackPixel, timestamp = 1600\<rparr>"
  let ?f2 = "\<lparr>base64 = ''f2'', imageData = whitePixel, timestamp = 2000\<rparr>"
  let ?p = "initialPage\<lparr>isCameraActive := True, lastProcessTimeRef := 1600,
        frameBufferRef := default_FrameBuffer\<lparr>buffer := replicate 8 ?f0, lastCaptureTime := 1600\<rparr>\<rparr>"
  let ?t = "\<lparr>videoWidth = 640, videoHeight = 480, now_handler = 2000, now_buffer = 2000,
              canvas = Some (''f2'', whitePixel)\<rparr>"
  let ?fb = "\<lparr>buffer = replicate 7 ?f0 @ [?f2], maxFrames = 8, frameInterval = 200,
              motionThreshold = defaultMotionThreshold, lastCaptureTime = 2000,
              hasSignificantMotion = True\<rparr>"
  have a1: "\<not> processingRef ?p" and a2: "isCameraActive ?p"
    and a3: "\<not> now_handler ?t - lastProcessTimeRef ?p < FRAME_INTERVAL_MS"
    and a5: "0 < maxFrames (frameBufferRef ?p)"
    by (simp_all add: initialPage_def FRAME_INTERVAL_MS_def default_FrameBuffer_def
        new_FrameBuffer_def)
  have a4: "addFrame (now_buffer ?t) (canvas ?t) (frameBufferRef ?p) = (Inr True, ?fb)"
    by (simp add: addFrame_def default_FrameBuffer_def new_FrameBuffer_def motion_black_white
        defaultMotionThreshold_value eval_nat_numeral)
  have h1: "awaiting (fst (handleFrameCapture ?t ?p))"
    using handleFrameCapture_ready(1) [OF a1 a2 a3 a4 a5] by simp
  from C6_failure_releases_guard [OF h1 refl refl,
      where err = "Some ''Prediction failed: 503 unavailable''" and now = 2100
        and st = "Rejected None"]
  show ?thesis by (simp add: initialPage_def)
qed

text \<open>
  C7: after a successful inference \<^verbatim>\<open>speakActionFeedback\<close> is called once with the new
  label, confidence and message if the label differs from the remembered one, and not
  at all if it is the same; the remembered label is the returned label afterwards.
  So of two successive results the second one speaks exactly when its label differs
  from the first's.
\<close>

theorem C7_speak_on_label_change:
  "speakCalls (handleFrameCapture_resume (Fulfilled r) now p)
     = speakCalls p @ (if lastActionRef p = Some (prediction r) then []
                       else [(prediction r, confidence r, message r)])
   \<and> lastActionRef (handleFrameCapture_resume (Fulfilled r) now p) = Some (prediction r)
   \<and> (prediction r' = prediction r \<longrightarrow>
        speakCalls (handleFrameCapture_resume (Fulfilled r') now'
                      (handleFrameCapture_resume (Fulfilled r) now p))
          = speakCalls (handleFrameCapture_resume (Fulfilled r) now p))
   \<and> (prediction r' \<noteq> prediction r \<longrightarrow>
        speakCalls (handleFrameCapture_resume (Fulfilled r') now'
                      (handleFrameCapture_resume (Fulfilled r) now p))
          = speakCalls (handleFrameCapture_resume (Fulfilled r) now p)
            @ [(prediction r', confidence r', message r')])"
proof -
  have a: "speakCalls (handleFrameCapture_resume (Fulfilled x) n y)
     = speakCalls y @ (if lastActionRef y = Some (prediction x) then []
                       else [(prediction x, confidence x, message x)])"
    and b: "lastActionRef (handleFrameCapture_resume (Fulfilled x) n y) = Some (prediction x)"
    for x n y
    by (simp_all add: handleFrameCapture_resume_def finally_block_def try_block_def Let_def)
  show ?thesis by (simp add: a b)
qed

theorem C7_speak_on_label_change_witness:
  "speakCalls (handleFrameCapture_resume
       (Fulfilled \<lparr>prediction = High, confidence = fl (91 / 100), message = ''Great shot!''\<rparr>) 2600
       (handleFrameCapture_resume
          (Fulfilled \<lparr>prediction = High, confidence = fl (91 / 100), message = ''Great shot!''\<rparr>)
          2300 initialPage))
     = [(High, fl (91 / 100), ''Great shot!'')]
   \<and> speakCalls (handleFrameCapture_resume
       (Fulfilled \<lparr>prediction = NotHigh, confidence = fl (80 / 100), message = ''Keep practicing!''\<rparr>) 2600
       (handleFrameCapture_resume
          (Fulfilled \<lparr>prediction = High, confidence = fl (91 / 100), message = ''Great shot!''\<rparr>)
          2300 initialPage))
     = [(High, fl (91 / 100), ''Great shot!''), (NotHigh, fl (80 / 100), ''Keep practicing!'')]"
  using C7_speak_on_label_change
      [of "\<lparr>prediction = High, confidence = fl (91 / 100), message = ''Great shot!''\<rparr>" 2300 initialPage
        "\<lparr>prediction = High, confidence = fl (91 / 100), message = ''Great shot!''\<rparr>" 2600]
    C7_speak_on_label_change
      [of "\<lparr>prediction = High, confidence = fl (91 / 100), message = ''Great shot!''\<rparr>" 2300 initialPage
        "\<lparr>prediction = NotHigh, confidence = fl (80 / 100), message = ''Keep practicing!''\<rparr>" 2600]
  by (simp add: initialPage_def)

section \<open>Properties of the audio feedback\<close>

text \<open>On the remote-audio path a new playback pauses the one the module knows of.\<close>

lemma playAudioFromBase64_exclusive:
  assumes "sounding a = [h]" and "currentAudio a = Some h" and "isPlaying a"
    and "utteranceQueue a = []" and "h < audioCreated a"
  shows "sounding (snd (playAudioFromBase64 True True a)) = [audioCreated a]"
    and "activeSessions (snd (playAudioFromBase64 True True a)) = 1"
  using assms by (simp_all add: playAudioFromBase64_def activeSessions_def Let_def)

text \<open>
  C8 does not hold on the fallback path. Two calls of \<^verbatim>\<open>speakActionFeedback\<close> in
  succession, each run from the settlement of \<^verbatim>\<open>generateAudio\<close>:
  \<^item> remote audio, then a failed request: \<^verbatim>\<open>fallbackTTS\<close> speaks while audio element 0
    is still sounding, two sessions at once;
  \<^item> two failed requests: the second utterance is queued behind the first;
  \<^item> a failed request, then remote audio: \<^verbatim>\<open>playAudioFromBase64\<close> starts the element
    while the synthesiser is speaking, two sessions at once;
  \<^item> remote audio twice: the first element is paused, one session.
\<close>

theorem C8_fallback_does_not_stop_playback:
  "sounding (speakActionFeedback NotHigh (Some ''Keep practicing!'') None True
      (speakActionFeedback High (Some ''Great shot!'') (Some (True, True)) True initialAudio)) = [0]
   \<and> utteranceQueue (speakActionFeedback NotHigh (Some ''Keep practicing!'') None True
      (speakActionFeedback High (Some ''Great shot!'') (Some (True, True)) True initialAudio))
       = [''Keep practicing!'']
   \<and> activeSessions (speakActionFeedback NotHigh (Some ''Keep practicing!'') None True
      (speakActionFeedback High (Some ''Great shot!'') (Some (True, True)) True initialAudio)) = 2
   \<and> utteranceQueue (speakActionFeedback NotHigh (Some ''Keep practicing!'') None True
      (speakActionFeedback High (Some ''Great shot!'') None True initialAudio))
       = [''Great shot!'', ''Keep practicing!'']
   \<and> activeSessions (speakActionFeedback NotHigh (Some ''Keep practicing!'') (Some (True, True)) True
      (speakActionFeedback High (Some ''Great shot!'') None True initialAudio)) = 2
   \<and> activeSessions (speakActionFeedback NotHigh (Some ''Keep practicing!'') (Some (True, True)) True
      (speakActionFeedback High (Some ''Great shot!'') (Some (True, True)) True initialAudio)) = 1"
  by (simp add: speakActionFeedback_def playAudioFromBase64_def fallbackTTS_def
      getActionFeedback_def activeSessions_def initialAudio_def Let_def)

section \<open>Properties of the pose detector initialisation\<close>

text \<open>
  C9, as stated, fails when \<^verbatim>\<open>tf.ready()\<close> rejects: the first \<^verbatim>\<open>try\<close> block is left
  before MoveNet Lightning is constructed, and the promise rejects after only Thunder
  and BlazePose have thrown, although constructing Lightning would not have thrown.
\<close>

theorem C9_rejects_without_lightning_counterexample:
  "initializePoseDetector backendNotReady initialPose
     = (RejectedWith initFailureMessage, initialPose, [MoveNetThunder, BlazePoseLite])
   \<and> createDetector backendNotReady MoveNetLightning"
  by (simp add: initializePoseDetector_def backendNotReady_def lightningOnly_def initialPose_def)

text \<open>
  C9 (amended): a call that finds no detector and no initialisation in progress makes
  up to three attempts in order, the first success ending the cascade: (1) await
  \<^verbatim>\<open>tf.ready()\<close> and construct MoveNet Lightning, (2) construct MoveNet Thunder,
  (3) construct BlazePose Lite. An attempt that throws is followed by the next one
  within the same call. The promise rejects exactly when all three attempts have
  thrown, and then with one \<^verbatim>\<open>Error\<close> of a fixed message, whatever the three causes
  were; otherwise it resolves and the detector is that of the first attempt that
  succeeded.
\<close>

theorem C9_fallback_cascade:
  assumes "\<not> (isInitialized s \<and> detector s \<noteq> None)"
    and "\<not> initializationPromise s"
    and "first = (tfReady env \<and> createDetector env MoveNetLightning)"
    and "second = createDetector env MoveNetThunder"
    and "third = createDetector env BlazePoseLite"
    and "r = initializePoseDetector env s"
  shows "(fst r = RejectedWith initFailureMessage) = (\<not> first \<and> \<not> second \<and> \<not> third)
         \<and> (fst r = Resolved) = (first \<or> second \<or> third)
         \<and> detector (fst (snd r)) =
              (if first then Some MoveNetLightning
               else if second then Some MoveNetThunder
               else if third then Some BlazePoseLite
               else detector s)
         \<and> isInitialized (fst (snd r)) = (first \<or> second \<or> third \<or> isInitialized s)
         \<and> snd (snd r) =
              (if tfReady env then [MoveNetLightning] else [])
              @ (if first then []
                 else MoveNetThunder # (if second then [] else [BlazePoseLite]))"
proof -
  from assms(1) have fresh: "(isInitialized s \<and> detector s \<noteq> None) = False" by blast
  show ?thesis
    unfolding assms(6) initializePoseDetector_def fresh
    using assms(2-5) by (auto simp: Let_def)
qed

theorem C9_fallback_cascade_witness:
  "fst (initializePoseDetector backendBroken initialPose) = RejectedWith initFailureMessage
   \<and> snd (snd (initializePoseDetector backendBroken initialPose))
       = [MoveNetLightning, MoveNetThunder, BlazePoseLite]
   \<and> fst (initializePoseDetector backendThunder initialPose) = Resolved
   \<and> detector (fst (snd (initializePoseDetector backendThunder initialPose))) = Some MoveNetThunder
   \<and> snd (snd (initializePoseDetector backendThunder initialPose))
       = [MoveNetLightning, MoveNetThunder]"
proof -
  have f1: "\<not> (isInitialized initialPose \<and> detector initialPose \<noteq> None)"
    and f2: "\<not> initializationPromise initialPose"
    by (simp_all add: initialPose_def)
  from C9_fallback_cascade [OF f1 f2 refl refl refl refl, of backendBroken]
    C9_fallback_cascade [OF f1 f2 refl refl refl refl, of backendThunder]
  show ?thesis
    by (simp add: backendBroken_def backendThunder_def noVariant_def thunderOnly_def)
qed

section \<open>Properties of the motion score\<close>

subsection \<open>The rounding error\<close>

text \<open>Rounding moves a number by at most half a unit in its last place. For the
  luminances this keeps the rounded difference within a millionth of the exact one.\<close>

lemma round_even_error: "\<bar>of_int (round_even y) - y\<bar> \<le> (1 / 2 :: rat)"
proof -
  have "of_int \<lfloor>y\<rfloor> \<le> y" "y < of_int \<lfloor>y\<rfloor> + 1" by linarith+
  then show ?thesis
    by (auto simp: round_even_def Let_def)
qed

lemma expo_lower: "x \<noteq> 0 \<Longrightarrow> 2 powi (expo x) \<le> \<bar>x\<bar>"
proof -
  assume nz: "x \<noteq> 0"
  obtain p q where pq: "quotient_of \<bar>x\<bar> = (p, q)" by (cases "quotient_of \<bar>x\<bar>") auto
  from quotient_of_denom_pos [OF pq] have q: "0 < q" .
  from quotient_of_div [OF pq] have x: "\<bar>x\<bar> = of_int p / of_int q" .
  from nz have "0 < \<bar>x\<bar>" by simp
  with x q have p: "0 < p" by (simp add: zero_less_divide_iff)
  let ?k = "bitlen p - bitlen q"
  show ?thesis
  proof (cases "2 powi ?k \<le> \<bar>x\<bar>")
    case True
    then show ?thesis by (simp add: expo_def pq)
  next
    case False
    from bitlen_bounds [OF p] have lp: "2 ^ nat (bitlen p - 1) \<le> p" by simp
    from bitlen_bounds [OF q] have lq: "q < 2 ^ nat (bitlen q)" by simp
    from p have bp: "1 \<le> bitlen p" by (simp add: bitlen_alt_def)
    from q have bq: "0 \<le> bitlen q" by (simp add: bitlen_nonneg)
    have "(2 :: rat) powi (?k - 1) = 2 powi ((bitlen p - 1) - bitlen q)"
      by (simp add: algebra_simps)
    also have "\<dots> = 2 powi (bitlen p - 1) / 2 powi (bitlen q)"
      by (rule power_int_diff) simp
    also have "\<dots> = 2 ^ nat (bitlen p - 1) / 2 ^ nat (bitlen q)"
      using bp bq by (simp add: power_int_def)
    also have "\<dots> \<le> of_int p / of_int q"
    proof (rule frac_le)
      show "(0 :: rat) \<le> of_int p" using p by simp
      from lp have "(of_int (2 ^ nat (bitlen p - 1)) :: rat) \<le> of_int p" by (simp only: of_int_le_iff)
      then show "(2 :: rat) ^ nat (bitlen p - 1) \<le> of_int p" by simp
      show "(0 :: rat) < of_int q" using q by simp
      from lq have "q \<le> 2 ^ nat (bitlen q)" by simp
      then have "(of_int q :: rat) \<le> of_int (2 ^ nat (bitlen q))" by (simp only: of_int_le_iff)
      then show "(of_int q :: rat) \<le> 2 ^ nat (bitlen q)" by simp
    qed
    finally have "(2 :: rat) powi (?k - 1) \<le> of_int p / of_int q" .
    moreover have "expo x = ?k - 1" using False by (simp add: expo_def pq)
    ultimately show ?thesis by (simp only: x)
  qed
qed

lemma fl_error: "\<bar>fl x - x\<bar> \<le> (\<bar>x\<bar> + 1) / 2 ^ 53"
proof (cases "x = 0")
  case True
  then show ?thesis by (simp add: fl_def)
next
  case False
  define e where "e = max (expo x) (- 1022)"
  define u :: rat where "u = 2 powi (e - 52)"
  have u: "0 < u" by (simp add: u_def)
  have fl: "fl x = of_int (round_even (x / u)) * u"
    using False by (simp add: fl_def e_def u_def Let_def)
  have "fl x - x = (of_int (round_even (x / u)) - x / u) * u"
    using u by (simp add: fl field_simps)
  then have "\<bar>fl x - x\<bar> = \<bar>of_int (round_even (x / u)) - x / u\<bar> * u"
    using u by (simp add: abs_mult)
  also have "\<dots> \<le> (1 / 2) * u"
    using round_even_error [of "x / u"] u by (intro mult_right_mono) simp_all
  also have "(1 / 2) * u = 2 powi e / 2 ^ 53"
  proof -
    have "u = 2 powi e / 2 powi 52" unfolding u_def by (rule power_int_diff) simp
    then show ?thesis by simp
  qed
  also have "\<dots> \<le> (\<bar>x\<bar> + 1) / 2 ^ 53"
  proof -
    have "(2 :: rat) powi e \<le> \<bar>x\<bar> + 1"
    proof (cases "expo x \<le> - 1022")
      case True
      then have "e = - 1022" by (simp add: e_def)
      moreover have "(2 :: rat) powi (- 1022) \<le> 2 powi 0"
        by (rule power_int_increasing) simp_all
      ultimately have "(2 :: rat) powi e \<le> 1" by simp
      then show ?thesis by linarith
    next
      case False
      then have "e = expo x" by (simp add: e_def)
      with expo_lower [OF \<open>x \<noteq> 0\<close>] show ?thesis by simp
    qed
    then show ?thesis by (simp add: divide_right_mono)
  qed
  finally show ?thesis .
qed

lemma double_difference_close:
  fixes s1 s2 :: nat
  assumes "s1 \<le> 765" and "s2 \<le> 765"
  shows "\<bar>fl (fl (of_nat s1 / 3) - fl (of_nat s2 / 3)) - of_int (int s1 - int s2) / 3\<bar>
           \<le> 1 / 1000000"
proof -
  let ?A = "of_nat s1 / 3 :: rat" and ?B = "of_nat s2 / 3 :: rat"
  let ?d = "fl ?A - fl ?B"
  have p: "(2 :: rat) ^ 53 = 9007199254740992" by simp
  have A: "0 \<le> ?A" "?A \<le> 255" and B: "0 \<le> ?B" "?B \<le> 255"
    using assms by simp_all
  have ea: "\<bar>fl ?A - ?A\<bar> \<le> 256 / 9007199254740992"
  proof -
    have "(\<bar>?A\<bar> + 1) / 2 ^ 53 \<le> 256 / 9007199254740992"
      unfolding p using A by (intro divide_right_mono) simp_all
    with fl_error [of ?A] show ?thesis by linarith
  qed
  have eb: "\<bar>fl ?B - ?B\<bar> \<le> 256 / 9007199254740992"
  proof -
    have "(\<bar>?B\<bar> + 1) / 2 ^ 53 \<le> 256 / 9007199254740992"
      unfolding p using B by (intro divide_right_mono) simp_all
    with fl_error [of ?B] show ?thesis by linarith
  qed
  have d: "\<bar>?d\<bar> \<le> 511" using ea eb A B by linarith
  have ed: "\<bar>fl ?d - ?d\<bar> \<le> 512 / 9007199254740992"
  proof -
    have "(\<bar>?d\<bar> + 1) / 2 ^ 53 \<le> 512 / 9007199254740992"
      unfolding p using d by (intro divide_right_mono) simp_all
    with fl_error [of ?d] show ?thesis by linarith
  qed
  have "(of_int (int s1 - int s2) :: rat) / 3 = ?A - ?B"
    by (simp add: diff_divide_distrib)
  with ea eb ed show ?thesis by linarith
qed

lemma double_criterion:
  fixes s1 s2 :: nat
  assumes "s1 \<le> 765" and "s2 \<le> 765"
  shows "90 < \<bar>int s1 - int s2\<bar> \<Longrightarrow> 30 < \<bar>fl (fl (of_nat s1 / 3) - fl (of_nat s2 / 3))\<bar>"
    and "\<bar>int s1 - int s2\<bar> < 90 \<Longrightarrow> \<not> 30 < \<bar>fl (fl (of_nat s1 / 3) - fl (of_nat s2 / 3))\<bar>"
proof -
  define F where "F = fl (fl (of_nat s1 / 3) - fl (of_nat s2 / 3))"
  define D :: rat where "D = of_int (int s1 - int s2)"
  have c: "\<bar>F - D / 3\<bar> \<le> 1 / 1000000"
    unfolding F_def D_def by (rule double_difference_close [OF assms])
  have far: "30 < \<bar>F\<bar>" if "91 \<le> D \<or> D \<le> - 91"
    using that c by linarith
  have near: "\<not> 30 < \<bar>F\<bar>" if "- 89 \<le> D" "D \<le> 89"
    using that c by linarith
  {
    assume "90 < \<bar>int s1 - int s2\<bar>"
    then have "91 \<le> int s1 - int s2 \<or> int s1 - int s2 \<le> - 91" by linarith
    then have "91 \<le> D \<or> D \<le> - 91"
      unfolding D_def by (metis of_int_le_iff of_int_numeral of_int_minus)
    from far [OF this] show "30 < \<bar>fl (fl (of_nat s1 / 3) - fl (of_nat s2 / 3))\<bar>"
      unfolding F_def .
  }
  {
    assume "\<bar>int s1 - int s2\<bar> < 90"
    then have "- 89 \<le> int s1 - int s2" "int s1 - int s2 \<le> 89" by linarith+
    then have "- 89 \<le> D" "D \<le> 89"
      unfolding D_def by (metis of_int_le_iff of_int_numeral of_int_minus)+
    from near [OF this] show "\<not> 30 < \<bar>fl (fl (of_nat s1 / 3) - fl (of_nat s2 / 3))\<bar>"
      unfolding F_def .
  }
qed

subsection \<open>The loop counts the pixels\<close>





subsection \<open>The rounded criterion against the exact one\<close>

text \<open>The sum of three bytes is at most 765.\<close>

lemma byte_sum_le:
  fixes a b c :: byte
  shows "unat a + unat b + unat c \<le> 765"
proof -
  have "unat a < 256" "unat b < 256" "unat c < 256"
    using unsigned_less [of a] unsigned_less [of b] unsigned_less [of c] by simp_all
  then show ?thesis by simp
qed

lemma luminance_difference:
  "luminance f1 k - luminance f2 k =
     of_int (int (unat (data f1 ! (4 * k)) + unat (data f1 ! (4 * k + 1)) + unat (data f1 ! (4 * k + 2)))
             - int (unat (data f2 ! (4 * k)) + unat (data f2 ! (4 * k + 1)) + unat (data f2 ! (4 * k + 2)))) / 3"
  by (simp add: luminance_def diff_divide_distrib)

lemma pixelChanged_sums:
  fixes D :: int
  shows "(30 < \<bar>(of_int D :: rat) / 3\<bar>) = (90 < \<bar>D\<bar>)"
    and "(\<bar>(of_int D :: rat) / 3\<bar> = 30) = (\<bar>D\<bar> = 90)"
    and "(30 \<le> \<bar>(of_int D :: rat) / 3\<bar>) = (90 \<le> \<bar>D\<bar>)"
proof -
  have a: "\<bar>(of_int D :: rat) / 3\<bar> = of_int \<bar>D\<bar> / 3" by simp
  obtain n where n: "\<bar>D\<bar> = n" by simp
  show "(30 < \<bar>(of_int D :: rat) / 3\<bar>) = (90 < \<bar>D\<bar>)"
    unfolding a n by simp
  show "(\<bar>(of_int D :: rat) / 3\<bar> = 30) = (\<bar>D\<bar> = 90)"
    unfolding a n by simp
  show "(30 \<le> \<bar>(of_int D :: rat) / 3\<bar>) = (90 \<le> \<bar>D\<bar>)"
    unfolding a n by simp
qed

lemma pixelChangedDouble_cases:
  shows pixelChanged_imp_Double: "pixelChanged f1 f2 k \<Longrightarrow> pixelChangedDouble f1 f2 k"
    and pixelChangedDouble_imp: "pixelChangedDouble f1 f2 k \<Longrightarrow> 30 \<le> \<bar>luminance f1 k - luminance f2 k\<bar>"
    and pixelChangedDouble_eq:
      "\<bar>luminance f1 k - luminance f2 k\<bar> \<noteq> 30 \<Longrightarrow> pixelChangedDouble f1 f2 k = pixelChanged f1 f2 k"
proof -
  define s1 where "s1 = unat (data f1 ! (4 * k)) + unat (data f1 ! (4 * k + 1)) + unat (data f1 ! (4 * k + 2))"
  define s2 where "s2 = unat (data f2 ! (4 * k)) + unat (data f2 ! (4 * k + 1)) + unat (data f2 ! (4 * k + 2))"
  define D where "D = int s1 - int s2"
  have b: "s1 \<le> 765" "s2 \<le> 765" unfolding s1_def s2_def by (rule byte_sum_le)+
  have l: "luminance f1 k - luminance f2 k = of_int D / 3"
    unfolding D_def s1_def s2_def by (rule luminance_difference)
  have dbl: "pixelChangedDouble f1 f2 k = (30 < \<bar>fl (fl (of_nat s1 / 3) - fl (of_nat s2 / 3))\<bar>)"
    by (simp add: pixelChangedDouble_def luminanceDouble_def luminance_def s1_def s2_def)
  have ex: "pixelChanged f1 f2 k = (90 < \<bar>D\<bar>)"
    unfolding pixelChanged_def l by (rule pixelChanged_sums)
  note c = double_criterion [OF b, folded D_def]
  show "pixelChanged f1 f2 k \<Longrightarrow> pixelChangedDouble f1 f2 k"
    unfolding ex dbl by (rule c(1))
  show "pixelChangedDouble f1 f2 k \<Longrightarrow> 30 \<le> \<bar>luminance f1 k - luminance f2 k\<bar>"
    unfolding l pixelChanged_sums dbl using c(2) by fastforce
  show "pixelChangedDouble f1 f2 k = pixelChanged f1 f2 k"
    if "\<bar>luminance f1 k - luminance f2 k\<bar> \<noteq> 30"
  proof -
    from that have "\<bar>D\<bar> \<noteq> 90" unfolding l pixelChanged_sums .
    then consider "90 < \<bar>D\<bar>" | "\<bar>D\<bar> < 90" by linarith
    then show ?thesis unfolding ex dbl using c by cases auto
  qed
qed






subsection \<open>The score\<close>




end
